theory Spec2Isabelle
  imports Complex_Main
begin

section \<open>Errors\<close>

text \<open>
  The ways a call of the modelled code can end without returning:
  \<^item> \<open>OutOfBounds\<close>: an array is read or written outside its extent (undefined
    behaviour in C++, made a visible outcome here);
  \<^item> \<open>ParseError\<close>: \<open>nlohmann::json::parse_error\<close>, thrown by \<open>operator>>\<close>;
  \<^item> \<open>TypeError\<close>: \<open>nlohmann::json::type_error\<close>, thrown by an operation on a JSON
    value of the wrong kind.
\<close>

datatype error = OutOfBounds | ParseError | TypeError

section \<open>The JSON library as the scene code uses it\<close>

text \<open>
  A \<open>nlohmann::json\<close> value. A default-constructed value (\<open>json j;\<close>) is \<open>JNull\<close>.
  The two integer kinds of the library are one constructor, a floating-point number is
  represented by its (finite) value, and an object keeps its members in key order, the
  order in which the library iterates them.
\<close>

datatype json =
    JNull
  | JBool bool
  | JInt int
  | JFloat rat
  | JString string
  | JArray "json list"
  | JObject "(string \<times> json) list"

text \<open>
  \<open>basic_json::push_back(const basic_json&)\<close>: a null value turns into an array first,
  an array is appended to, every other kind throws \<open>type_error\<close>.
\<close>

fun push_back :: "json \<Rightarrow> json \<Rightarrow> error + json" where
  "push_back JNull val = Inr (JArray [val])"
| "push_back (JArray elems) val = Inr (JArray (elems @ [val]))"
| "push_back _ val = Inl TypeError"

text \<open>
  The values that a range-for over \<open>j.items()\<close> visits, in order (the loop of
  \<open>loadFromJSONFile\<close> never looks at the keys): none for null, the elements of an
  array, the member values of an object, and the value itself for any other kind.
\<close>

fun items :: "json \<Rightarrow> json list" where
  "items JNull = []"
| "items (JArray elems) = elems"
| "items (JObject members) = map snd members"
| "items v = [v]"

section \<open>Files\<close>

text \<open>
  A file is represented by what the library's parser makes of its bytes: the document
  they denote (\<open>JSONText\<close>), or nothing (\<open>NotJSON\<close>: empty, truncated or otherwise
  malformed input). \<open>readable\<close> gives the content found at each path that an
  \<open>std::ifstream\<close> can open, \<open>writable\<close> tells whether an \<open>std::ofstream\<close> can open
  the path (creating or truncating the file). The text that \<open>o << j\<close> writes denotes
  \<open>j\<close> (the strings of a document are valid UTF-8, which the serializer requires), and
  a file written by the process can be read back by it.
\<close>

datatype file_content = JSONText json | NotJSON

record filesystem =
  readable :: "string \<rightharpoonup> file_content"
  writable :: "string \<Rightarrow> bool"

subsection \<open>JSONHelper\<close>

definition saveJSON :: "filesystem \<Rightarrow> json \<Rightarrow> string \<Rightarrow> bool \<times> filesystem" where
  "saveJSON fs j filePath =
     (if writable fs filePath
      then (True, fs\<lparr>readable := (readable fs)(filePath \<mapsto> JSONText j)\<rparr>)
      else (False, fs))"

text \<open>
  \<open>loadJSON\<close> returns the flag together with the caller's document \<open>j\<close> as the call
  leaves it. \<open>i >> j\<close> throws on malformed input and nothing in \<open>loadJSON\<close> catches
  it, so that outcome is \<open>Inl ParseError\<close>.
\<close>

definition loadJSON :: "filesystem \<Rightarrow> json \<Rightarrow> string \<Rightarrow> error + (bool \<times> json)" where
  "loadJSON fs j filePath =
     (case readable fs filePath of
        None \<Rightarrow> Inr (False, j)
      | Some content \<Rightarrow>
          (case content of
             NotJSON \<Rightarrow> Inl ParseError
           | JSONText parsed \<Rightarrow> Inr (True, parsed)))"

section \<open>SceneState\<close>

text \<open>
  \<open>ObjectState\<close> and its \<open>to_json\<close> and \<open>from_json\<close> are not part of the sources at
  hand; the object type is the type variable \<open>'o\<close> and the two conversions are
  parameters. \<open>to_json obj\<close> is the document that \<open>obj.to_json(jObject)\<close> leaves in a
  fresh \<open>jObject\<close>; \<open>from_json value w\<close> is the object that
  \<open>oState.from_json(value, toWorld)\<close> leaves in a fresh \<open>oState\<close>, or the exception it
  throws. A \<open>WORLD*\<close> is a \<open>'w option\<close>, \<open>None\<close> for the null pointer.
\<close>

record 'o SceneState =
  objects :: "'o list"

definition add :: "'o \<Rightarrow> 'o SceneState \<Rightarrow> 'o SceneState" where
  "add objState s = s\<lparr>objects := objects s @ [objState]\<rparr>"

definition clear :: "'o SceneState \<Rightarrow> 'o SceneState" where
  "clear s = s\<lparr>objects := []\<rparr>"

text \<open>The loop of \<open>toJSON\<close>: \<open>jScene\<close> is the document built so far.\<close>

fun toJSON_loop :: "('o \<Rightarrow> json) \<Rightarrow> 'o list \<Rightarrow> json \<Rightarrow> error + json" where
  "toJSON_loop to_json [] jScene = Inr jScene"
| "toJSON_loop to_json (object # rest) jScene =
     (case push_back jScene (to_json object) of
        Inl e \<Rightarrow> Inl e
      | Inr jScene' \<Rightarrow> toJSON_loop to_json rest jScene')"

definition toJSON :: "('o \<Rightarrow> json) \<Rightarrow> 'o SceneState \<Rightarrow> error + json" where
  "toJSON to_json s = toJSON_loop to_json (objects s) JNull"

definition saveToJSONFile ::
  "('o \<Rightarrow> json) \<Rightarrow> filesystem \<Rightarrow> 'w option \<Rightarrow> string \<Rightarrow> 'o SceneState
     \<Rightarrow> (error + bool) \<times> filesystem" where
  "saveToJSONFile to_json fs fromWorld toFile s =
     (case fromWorld of
        None \<Rightarrow> (Inr False, fs)
      | Some w \<Rightarrow>
          (case toJSON to_json s of
             Inl e \<Rightarrow> (Inl e, fs)
           | Inr j \<Rightarrow>
               (case saveJSON fs j toFile of (res, fs') \<Rightarrow> (Inr res, fs'))))"

text \<open>
  The loop of \<open>loadFromJSONFile\<close> over the values of \<open>j.items()\<close>. An exception of
  \<open>from_json\<close> leaves the loop with the objects added so far.
\<close>

fun load_loop ::
  "(json \<Rightarrow> 'w \<Rightarrow> error + 'o) \<Rightarrow> 'w \<Rightarrow> json list \<Rightarrow> 'o SceneState
     \<Rightarrow> error option \<times> 'o SceneState" where
  "load_loop from_json w [] s = (None, s)"
| "load_loop from_json w (val # rest) s =
     (case from_json val w of
        Inl e \<Rightarrow> (Some e, s)
      | Inr oState \<Rightarrow> load_loop from_json w rest (add oState s))"

definition loadFromJSONFile ::
  "(json \<Rightarrow> 'w \<Rightarrow> error + 'o) \<Rightarrow> filesystem \<Rightarrow> string \<Rightarrow> 'w option \<Rightarrow> 'o SceneState
     \<Rightarrow> (error + bool) \<times> 'o SceneState" where
  "loadFromJSONFile from_json fs fromFile toWorld s =
     (case toWorld of
        None \<Rightarrow> (Inr False, s)
      | Some w \<Rightarrow>
          (case loadJSON fs JNull fromFile of
             Inl e \<Rightarrow> (Inl e, s)
           | Inr (fileLoadRes, j) \<Rightarrow>
               if fileLoadRes
               then (case load_loop from_json w (items j) (clear s) of
                       (Some e, s') \<Rightarrow> (Inl e, s')
                     | (None, s') \<Rightarrow> (Inr True, s'))
               else (Inr False, s)))"

section \<open>Vectors, colours and float arithmetic\<close>

text \<open>
  \<open>b2Vec2\<close> and \<open>b2Color\<close> are structs of the engine, with the members the renderer
  reads and the constructors it calls.
\<close>

datatype 'f b2Vec2 = b2Vec2 (x_of: 'f) (y_of: 'f)

datatype 'f b2Color = b2Color (r_of: 'f) (g_of: 'f) (b_of: 'f) (a_of: 'f)

text \<open>
  The renderer computes in \<open>float32\<close>. Nothing proved below depends on how floats
  round, so the float type is the type variable \<open>'f\<close>, and what the code uses of
  float arithmetic and of the engine's headers are the fields of a record that every
  function takes as its first argument: \<open>lit\<close> is the float denoted by a literal
  (\<open>lit F (1/2)\<close> for \<open>0.5f\<close>); \<open>fadd\<close>, \<open>fsub\<close>, \<open>fmul\<close> and \<open>fdiv\<close> are \<open>+\<close>,
  \<open>-\<close>, \<open>*\<close> and \<open>/\<close> on floats; \<open>sinf\<close> and \<open>cosf\<close> are the library functions;
  \<open>b2_pi\<close> is the engine's constant; \<open>vec_add\<close> and \<open>vec_scale\<close> are the engine's
  operators \<open>a + b\<close> on two vectors and \<open>s * a\<close> on a float and a vector.
\<close>

record 'f float_ops =
  lit :: "rat \<Rightarrow> 'f"
  fadd :: "'f \<Rightarrow> 'f \<Rightarrow> 'f"
  fsub :: "'f \<Rightarrow> 'f \<Rightarrow> 'f"
  fmul :: "'f \<Rightarrow> 'f \<Rightarrow> 'f"
  fdiv :: "'f \<Rightarrow> 'f \<Rightarrow> 'f"
  sinf :: "'f \<Rightarrow> 'f"
  cosf :: "'f \<Rightarrow> 'f"
  b2_pi :: 'f
  vec_add :: "'f b2Vec2 \<Rightarrow> 'f b2Vec2 \<Rightarrow> 'f b2Vec2"
  vec_scale :: "'f \<Rightarrow> 'f b2Vec2 \<Rightarrow> 'f b2Vec2"

text \<open>
  Arithmetic on the reals with componentwise vector operators, the interpretation used
  for concrete instances.
\<close>

definition real_arith :: "real float_ops" where
  "real_arith =
     \<lparr>lit = of_rat, fadd = (+), fsub = (-), fmul = (*), fdiv = (/), sinf = sin, cosf = cos,
      b2_pi = pi,
      vec_add = (\<lambda>a b. b2Vec2 (x_of a + x_of b) (y_of a + y_of b)),
      vec_scale = (\<lambda>s a. b2Vec2 (s * x_of a) (s * y_of a))\<rparr>"

text \<open>
  Reading \<open>xs[i]\<close> from a C array represented by the list of its elements. Outside the
  array the C++ is undefined; the model ends in \<open>OutOfBounds\<close>. Counters and counts
  are \<open>int32\<close> in the source and \<open>int\<close> here: no value below leaves the range.
\<close>

definition read_at :: "'a list \<Rightarrow> int \<Rightarrow> error + 'a" where
  "read_at xs i = (if 0 \<le> i \<and> i < int (length xs) then Inr (xs ! nat i) else Inl OutOfBounds)"

section \<open>The primitive batches\<close>

text \<open>
  \<open>GLRenderPoints\<close>, \<open>GLRenderLines\<close> and the two variants of \<open>GLRenderTriangles\<close>
  all have the arrays \<open>m_vertices\<close> and \<open>m_colors\<close> and the counter \<open>m_count\<close>; the
  point batch adds \<open>m_sizes\<close>, the triangle batch of a build with \<open>RENDER_TEXTURES\<close>
  adds \<open>m_texCoordinates\<close>, \<open>m_materials\<close> and \<open>m_textureIds\<close>. The shared members
  are one record, which the two larger structs extend. The OpenGL handles are left out.
  In their place \<open>gl_draws\<close> lists the draw calls issued so far, oldest first, each as
  the (position, colour) pairs uploaded for it. \<open>sCheckGLError\<close> aborts the process when the
  driver reports an error; the model describes the runs in which it reports none.
\<close>

record 'f GLRenderLines =
  m_vertices :: "'f b2Vec2 list"
  m_colors :: "'f b2Color list"
  m_count :: int
  gl_draws :: "('f b2Vec2 \<times> 'f b2Color) list list"

type_synonym 'f GLRenderTriangles = "'f GLRenderLines"

record 'f GLRenderPoints = "'f GLRenderLines" +
  m_sizes :: "'f list"

record 'f GLRenderTexturedTriangles = "'f GLRenderLines" +
  m_texCoordinates :: "'f b2Vec2 list"
  m_materials :: "int list"
  m_textureIds :: "int list"

text \<open>The three values of \<open>e_maxVertices\<close>.\<close>

definition points_maxVertices :: int where
  "points_maxVertices = 512"

definition lines_maxVertices :: int where
  "lines_maxVertices = 2 * 512"

definition triangles_maxVertices :: int where
  "triangles_maxVertices = 3 * 512"

text \<open>The entries of a batch that a flush uploads and draws: the first \<open>m_count\<close>.\<close>

definition buffered :: "('f, 'z) GLRenderLines_scheme \<Rightarrow> ('f b2Vec2 \<times> 'f b2Color) list" where
  "buffered b = zip (take (nat (m_count b)) (m_vertices b)) (take (nat (m_count b)) (m_colors b))"

subsection \<open>GLRenderPoints\<close>

definition GLRenderPoints_Flush :: "'f GLRenderPoints \<Rightarrow> 'f GLRenderPoints" where
  "GLRenderPoints_Flush b =
     (if m_count b = 0 then b
      else b\<lparr>gl_draws := gl_draws b @ [buffered b], m_count := 0\<rparr>)"

definition GLRenderPoints_Vertex ::
  "'f b2Vec2 \<Rightarrow> 'f b2Color \<Rightarrow> 'f \<Rightarrow> 'f GLRenderPoints \<Rightarrow> error + 'f GLRenderPoints" where
  "GLRenderPoints_Vertex v c sz b =
     (let b1 = (if m_count b = points_maxVertices then GLRenderPoints_Flush b else b) in
      if 0 \<le> m_count b1 \<and> m_count b1 < points_maxVertices
      then Inr (b1\<lparr>m_vertices := (m_vertices b1)[nat (m_count b1) := v],
                   m_colors := (m_colors b1)[nat (m_count b1) := c],
                   m_sizes := (m_sizes b1)[nat (m_count b1) := sz],
                   m_count := m_count b1 + 1\<rparr>)
      else Inl OutOfBounds)"

subsection \<open>GLRenderLines\<close>

definition GLRenderLines_Flush :: "'f GLRenderLines \<Rightarrow> 'f GLRenderLines" where
  "GLRenderLines_Flush b =
     (if m_count b = 0 then b
      else b\<lparr>gl_draws := gl_draws b @ [buffered b], m_count := 0\<rparr>)"

definition GLRenderLines_Vertex ::
  "'f b2Vec2 \<Rightarrow> 'f b2Color \<Rightarrow> 'f GLRenderLines \<Rightarrow> error + 'f GLRenderLines" where
  "GLRenderLines_Vertex v c b =
     (let b1 = (if m_count b = lines_maxVertices then GLRenderLines_Flush b else b) in
      if 0 \<le> m_count b1 \<and> m_count b1 < lines_maxVertices
      then Inr (b1\<lparr>m_vertices := (m_vertices b1)[nat (m_count b1) := v],
                   m_colors := (m_colors b1)[nat (m_count b1) := c],
                   m_count := m_count b1 + 1\<rparr>)
      else Inl OutOfBounds)"

subsection \<open>GLRenderTriangles, with \<open>RENDER_TEXTURES\<close>\<close>

definition GLRenderTexturedTriangles_Flush ::
  "'f GLRenderTexturedTriangles \<Rightarrow> 'f GLRenderTexturedTriangles" where
  "GLRenderTexturedTriangles_Flush b =
     (if m_count b = 0 then b
      else b\<lparr>gl_draws := gl_draws b @ [buffered b], m_count := 0\<rparr>)"

definition GLRenderTexturedTriangles_Vertex ::
  "'f b2Vec2 \<Rightarrow> 'f b2Color \<Rightarrow> 'f b2Vec2 \<Rightarrow> int \<Rightarrow> 'f GLRenderTexturedTriangles
     \<Rightarrow> error + 'f GLRenderTexturedTriangles" where
  "GLRenderTexturedTriangles_Vertex v c t m b =
     (let b1 = (if m_count b = triangles_maxVertices then GLRenderTexturedTriangles_Flush b else b) in
      if 0 \<le> m_count b1 \<and> m_count b1 < triangles_maxVertices
      then Inr (b1\<lparr>m_vertices := (m_vertices b1)[nat (m_count b1) := v],
                   m_colors := (m_colors b1)[nat (m_count b1) := c],
                   m_texCoordinates := (m_texCoordinates b1)[nat (m_count b1) := t],
                   m_materials := (m_materials b1)[nat (m_count b1) := m],
                   m_count := m_count b1 + 1\<rparr>)
      else Inl OutOfBounds)"

subsection \<open>GLRenderTriangles, without \<open>RENDER_TEXTURES\<close>\<close>

definition GLRenderTriangles_Flush :: "'f GLRenderTriangles \<Rightarrow> 'f GLRenderTriangles" where
  "GLRenderTriangles_Flush b =
     (if m_count b = 0 then b
      else b\<lparr>gl_draws := gl_draws b @ [buffered b], m_count := 0\<rparr>)"

definition GLRenderTriangles_Vertex ::
  "'f b2Vec2 \<Rightarrow> 'f b2Color \<Rightarrow> 'f GLRenderTriangles \<Rightarrow> error + 'f GLRenderTriangles" where
  "GLRenderTriangles_Vertex v c b =
     (let b1 = (if m_count b = triangles_maxVertices then GLRenderTriangles_Flush b else b) in
      if 0 \<le> m_count b1 \<and> m_count b1 < triangles_maxVertices
      then Inr (b1\<lparr>m_vertices := (m_vertices b1)[nat (m_count b1) := v],
                   m_colors := (m_colors b1)[nat (m_count b1) := c],
                   m_count := m_count b1 + 1\<rparr>)
      else Inl OutOfBounds)"

subsection \<open>Well-formed batches and what a batch has been given\<close>

text \<open>
  A batch is well formed for a capacity when its arrays have that extent and
  \<open>m_count\<close> lies between 0 and the capacity. \<open>emitted\<close> is every entry the batch has
  received through \<open>Vertex\<close>, in order: the entries of the draw calls issued, then the
  ones still buffered.
\<close>

definition batch_ok :: "int \<Rightarrow> ('f, 'z) GLRenderLines_scheme \<Rightarrow> bool" where
  "batch_ok cap b \<longleftrightarrow>
     length (m_vertices b) = nat cap \<and> length (m_colors b) = nat cap \<and>
     0 \<le> m_count b \<and> m_count b \<le> cap"

definition emitted :: "('f, 'z) GLRenderLines_scheme \<Rightarrow> ('f b2Vec2 \<times> 'f b2Color) list" where
  "emitted b = concat (gl_draws b) @ buffered b"

section \<open>SimulationRenderer\<close>

text \<open>
  The renderer after \<open>Create()\<close>, when its three batch pointers are set. Two macros
  that the sources at hand do not define select the code: \<open>USE_DEBUG_DRAW\<close>, under
  which none of this is compiled, and \<open>RENDER_TEXTURES\<close>, under which the bodies of
  \<open>DrawSolidPolygon\<close> and \<open>DrawSolidCircle\<close> are empty. \<open>RENDER_TEXTURES\<close> is a
  parameter of these two functions. The type of \<open>m_triangles\<close> is that of a build
  without it; with it, the two functions do not touch the field.
\<close>

record 'f SimulationRenderer =
  m_points :: "'f GLRenderPoints"
  m_lines :: "'f GLRenderLines"
  m_triangles :: "'f GLRenderTriangles"
  m_bIsDebugMode :: bool

subsection \<open>DrawPolygon\<close>

text \<open>
  The loop \<open>for (int32 i = 0; i < vertexCount; ++i)\<close> with its variables \<open>i\<close> and
  \<open>p1\<close> and the line batch. The same loop stands, as a copy, in the debug branch of
  \<open>DrawSolidPolygon\<close>.
\<close>

function DrawPolygon_loop ::
  "'f b2Vec2 list \<Rightarrow> int \<Rightarrow> 'f b2Color \<Rightarrow> int \<Rightarrow> 'f b2Vec2 \<Rightarrow> 'f GLRenderLines
     \<Rightarrow> error + 'f GLRenderLines" where
  "DrawPolygon_loop vertices vertexCount color i p1 ls =
     (if i < vertexCount then
        (case read_at vertices i of
           Inl e \<Rightarrow> Inl e
         | Inr p2 \<Rightarrow>
             (case GLRenderLines_Vertex p1 color ls of
                Inl e \<Rightarrow> Inl e
              | Inr ls1 \<Rightarrow>
                  (case GLRenderLines_Vertex p2 color ls1 of
                     Inl e \<Rightarrow> Inl e
                   | Inr ls2 \<Rightarrow> DrawPolygon_loop vertices vertexCount color (i + 1) p2 ls2)))
      else Inr ls)"
  by pat_completeness auto
termination
  by (relation "measure (\<lambda>(vertices, vertexCount, color, i, p1, ls). nat (vertexCount - i))") auto

definition DrawPolygon ::
  "'f b2Vec2 list \<Rightarrow> int \<Rightarrow> 'f b2Color \<Rightarrow> 'f SimulationRenderer
     \<Rightarrow> error + 'f SimulationRenderer" where
  "DrawPolygon vertices vertexCount color st =
     (case read_at vertices (vertexCount - 1) of
        Inl e \<Rightarrow> Inl e
      | Inr p1 \<Rightarrow>
          (case DrawPolygon_loop vertices vertexCount color 0 p1 (m_lines st) of
             Inl e \<Rightarrow> Inl e
           | Inr ls \<Rightarrow> Inr (st\<lparr>m_lines := ls\<rparr>)))"

subsection \<open>DrawSolidPolygon\<close>

text \<open>
  The colour \<open>b2Color(t * color.r, t * color.g, t * color.b, t)\<close> that both solid
  draws build as their \<open>fillColor\<close>; its alpha is \<open>t\<close> itself.
\<close>

definition fillColor_of :: "'f float_ops \<Rightarrow> 'f \<Rightarrow> 'f b2Color \<Rightarrow> 'f b2Color" where
  "fillColor_of F t color =
     b2Color (fmul F t (r_of color)) (fmul F t (g_of color)) (fmul F t (b_of color)) t"

text \<open>The loop \<open>for (int32 i = 1; i < vertexCount - 1; ++i)\<close> over the triangle batch.\<close>

function DrawSolidPolygon_loop ::
  "'f b2Vec2 list \<Rightarrow> int \<Rightarrow> 'f b2Color \<Rightarrow> int \<Rightarrow> 'f GLRenderTriangles
     \<Rightarrow> error + 'f GLRenderTriangles" where
  "DrawSolidPolygon_loop vertices vertexCount fillColor i ts =
     (if i < vertexCount - 1 then
        (case read_at vertices 0 of
           Inl e \<Rightarrow> Inl e
         | Inr a \<Rightarrow>
        (case GLRenderTriangles_Vertex a fillColor ts of
           Inl e \<Rightarrow> Inl e
         | Inr ts1 \<Rightarrow>
        (case read_at vertices i of
           Inl e \<Rightarrow> Inl e
         | Inr b \<Rightarrow>
        (case GLRenderTriangles_Vertex b fillColor ts1 of
           Inl e \<Rightarrow> Inl e
         | Inr ts2 \<Rightarrow>
        (case read_at vertices (i + 1) of
           Inl e \<Rightarrow> Inl e
         | Inr c \<Rightarrow>
        (case GLRenderTriangles_Vertex c fillColor ts2 of
           Inl e \<Rightarrow> Inl e
         | Inr ts3 \<Rightarrow> DrawSolidPolygon_loop vertices vertexCount fillColor (i + 1) ts3))))))
      else Inr ts)"
  by pat_completeness auto
termination
  by (relation "measure (\<lambda>(vertices, vertexCount, fillColor, i, ts). nat (vertexCount - 1 - i))") auto

definition DrawSolidPolygon ::
  "'f float_ops \<Rightarrow> bool \<Rightarrow> 'f b2Vec2 list \<Rightarrow> int \<Rightarrow> 'f b2Color \<Rightarrow> 'f SimulationRenderer
     \<Rightarrow> error + 'f SimulationRenderer" where
  "DrawSolidPolygon F RENDER_TEXTURES vertices vertexCount color st =
     (if RENDER_TEXTURES then Inr st
      else
        let transConst = (if m_bIsDebugMode st then lit F (1/2) else lit F 1);
            fillColor = fillColor_of F transConst color
        in
        (case DrawSolidPolygon_loop vertices vertexCount fillColor 1 (m_triangles st) of
           Inl e \<Rightarrow> Inl e
         | Inr ts \<Rightarrow>
             if m_bIsDebugMode st then
               (case read_at vertices (vertexCount - 1) of
                  Inl e \<Rightarrow> Inl e
                | Inr p1 \<Rightarrow>
                    (case DrawPolygon_loop vertices vertexCount color 0 p1 (m_lines st) of
                       Inl e \<Rightarrow> Inl e
                     | Inr ls \<Rightarrow> Inr (st\<lparr>m_lines := ls, m_triangles := ts\<rparr>)))
             else Inr (st\<lparr>m_triangles := ts\<rparr>)))"

subsection \<open>DrawCircle and DrawSolidCircle\<close>

text \<open>
  \<open>k_segments\<close> is the float \<open>16.0f\<close>. The loops compare the \<open>int32\<close> counter with
  it; the counter is converted to a float, exactly for the values it takes, so the
  comparison is the one of the numbers.
\<close>

definition k_segments :: rat where
  "k_segments = 16"

definition k_increment :: "'f float_ops \<Rightarrow> 'f" where
  "k_increment F = fdiv F (fmul F (lit F 2) (b2_pi F)) (lit F k_segments)"

text \<open>The vector \<open>r2\<close> that each pass of a circle loop computes from \<open>r1\<close>.\<close>

definition rotated :: "'f float_ops \<Rightarrow> 'f \<Rightarrow> 'f \<Rightarrow> 'f b2Vec2 \<Rightarrow> 'f b2Vec2" where
  "rotated F sinInc cosInc r1 =
     b2Vec2 (fsub F (fmul F cosInc (x_of r1)) (fmul F sinInc (y_of r1)))
            (fadd F (fmul F sinInc (x_of r1)) (fmul F cosInc (y_of r1)))"

text \<open>
  The outline loop of \<open>DrawCircle\<close>, which \<open>DrawSolidCircle\<close> repeats in its debug
  branch.
\<close>

function circle_outline_loop ::
  "'f float_ops \<Rightarrow> 'f b2Vec2 \<Rightarrow> 'f \<Rightarrow> 'f b2Color \<Rightarrow> 'f \<Rightarrow> 'f \<Rightarrow> int \<Rightarrow> 'f b2Vec2 \<Rightarrow> 'f b2Vec2
     \<Rightarrow> 'f GLRenderLines \<Rightarrow> error + 'f GLRenderLines" where
  "circle_outline_loop F center radius color sinInc cosInc i r1 v1 ls =
     (if of_int i < k_segments then
        let r2 = rotated F sinInc cosInc r1;
            v2 = vec_add F center (vec_scale F radius r2)
        in
        (case GLRenderLines_Vertex v1 color ls of
           Inl e \<Rightarrow> Inl e
         | Inr ls1 \<Rightarrow>
             (case GLRenderLines_Vertex v2 color ls1 of
                Inl e \<Rightarrow> Inl e
              | Inr ls2 \<Rightarrow>
                  circle_outline_loop F center radius color sinInc cosInc (i + 1) r2 v2 ls2))
      else Inr ls)"
  by pat_completeness auto
termination
  by (relation "measure (\<lambda>(F, center, radius, color, sinInc, cosInc, i, r1, v1, ls). nat (16 - i))")
     (auto simp: k_segments_def)

definition DrawCircle ::
  "'f float_ops \<Rightarrow> 'f b2Vec2 \<Rightarrow> 'f \<Rightarrow> 'f b2Color \<Rightarrow> 'f SimulationRenderer
     \<Rightarrow> error + 'f SimulationRenderer" where
  "DrawCircle F center radius color st =
     (let sinInc = sinf F (k_increment F);
          cosInc = cosf F (k_increment F);
          r1 = b2Vec2 (lit F 1) (lit F 0);
          v1 = vec_add F center (vec_scale F radius r1)
      in
      (case circle_outline_loop F center radius color sinInc cosInc 0 r1 v1 (m_lines st) of
         Inl e \<Rightarrow> Inl e
       | Inr ls \<Rightarrow> Inr (st\<lparr>m_lines := ls\<rparr>)))"

text \<open>The fill loop of \<open>DrawSolidCircle\<close>: one triangle \<open>(v0, v1, v2)\<close> per pass.\<close>

function circle_fill_loop ::
  "'f float_ops \<Rightarrow> 'f b2Vec2 \<Rightarrow> 'f \<Rightarrow> 'f b2Color \<Rightarrow> 'f \<Rightarrow> 'f \<Rightarrow> 'f b2Vec2 \<Rightarrow> int \<Rightarrow> 'f b2Vec2
     \<Rightarrow> 'f b2Vec2 \<Rightarrow> 'f GLRenderTriangles \<Rightarrow> error + 'f GLRenderTriangles" where
  "circle_fill_loop F center radius fillColor sinInc cosInc v0 i r1 v1 ts =
     (if of_int i < k_segments then
        let r2 = rotated F sinInc cosInc r1;
            v2 = vec_add F center (vec_scale F radius r2)
        in
        (case GLRenderTriangles_Vertex v0 fillColor ts of
           Inl e \<Rightarrow> Inl e
         | Inr ts1 \<Rightarrow>
             (case GLRenderTriangles_Vertex v1 fillColor ts1 of
                Inl e \<Rightarrow> Inl e
              | Inr ts2 \<Rightarrow>
                  (case GLRenderTriangles_Vertex v2 fillColor ts2 of
                     Inl e \<Rightarrow> Inl e
                   | Inr ts3 \<Rightarrow>
                       circle_fill_loop F center radius fillColor sinInc cosInc v0 (i + 1) r2 v2 ts3)))
      else Inr ts)"
  by pat_completeness auto
termination
  by (relation "measure (\<lambda>(F, center, radius, fillColor, sinInc, cosInc, v0, i, r1, v1, ts). nat (16 - i))")
     (auto simp: k_segments_def)

definition DrawSolidCircle ::
  "'f float_ops \<Rightarrow> bool \<Rightarrow> 'f b2Vec2 \<Rightarrow> 'f \<Rightarrow> 'f b2Vec2 \<Rightarrow> 'f b2Color \<Rightarrow> 'f SimulationRenderer
     \<Rightarrow> error + 'f SimulationRenderer" where
  "DrawSolidCircle F RENDER_TEXTURES center radius axis color st =
     (if RENDER_TEXTURES then Inr st
      else
        let sinInc = sinf F (k_increment F);
            cosInc = cosf F (k_increment F);
            v0 = center;
            r1 = b2Vec2 cosInc sinInc;
            v1 = vec_add F center (vec_scale F radius r1);
            fillColor = fillColor_of F (lit F (1/2)) color
        in
        (case circle_fill_loop F center radius fillColor sinInc cosInc v0 0 r1 v1 (m_triangles st) of
           Inl e \<Rightarrow> Inl e
         | Inr ts \<Rightarrow>
             if m_bIsDebugMode st then
               let r1 = b2Vec2 (lit F 1) (lit F 0);
                   v1 = vec_add F center (vec_scale F radius r1)
               in
               (case circle_outline_loop F center radius color sinInc cosInc 0 r1 v1 (m_lines st) of
                  Inl e \<Rightarrow> Inl e
                | Inr ls \<Rightarrow>
                    let p = vec_add F center (vec_scale F radius axis) in
                    (case GLRenderLines_Vertex center color ls of
                       Inl e \<Rightarrow> Inl e
                     | Inr ls1 \<Rightarrow>
                         (case GLRenderLines_Vertex p color ls1 of
                            Inl e \<Rightarrow> Inl e
                          | Inr ls2 \<Rightarrow> Inr (st\<lparr>m_lines := ls2, m_triangles := ts\<rparr>))))
             else Inr (st\<lparr>m_triangles := ts\<rparr>)))"

subsection \<open>Create and setIsDebugMode\<close>

text \<open>
  The renderer that the constructor and \<open>Create()\<close> leave: three batches with
  \<open>m_count = 0\<close> and no draw call issued, and \<open>m_bIsDebugMode\<close> false. C++ leaves
  the array cells uninitialised; here they hold \<open>z\<close>.
\<close>

definition Create :: "'f \<Rightarrow> 'f SimulationRenderer" where
  "Create z =
     \<lparr>m_points =
        \<lparr>m_vertices = replicate (nat points_maxVertices) (b2Vec2 z z),
         m_colors = replicate (nat points_maxVertices) (b2Color z z z z),
         m_count = 0, gl_draws = [],
         m_sizes = replicate (nat points_maxVertices) z\<rparr>,
      m_lines =
        \<lparr>m_vertices = replicate (nat lines_maxVertices) (b2Vec2 z z),
         m_colors = replicate (nat lines_maxVertices) (b2Color z z z z),
         m_count = 0, gl_draws = []\<rparr>,
      m_triangles =
        \<lparr>m_vertices = replicate (nat triangles_maxVertices) (b2Vec2 z z),
         m_colors = replicate (nat triangles_maxVertices) (b2Color z z z z),
         m_count = 0, gl_draws = []\<rparr>,
      m_bIsDebugMode = False\<rparr>"

definition setIsDebugMode :: "bool \<Rightarrow> 'f SimulationRenderer \<Rightarrow> 'f SimulationRenderer" where
  "setIsDebugMode isDebug st = st\<lparr>m_bIsDebugMode := isDebug\<rparr>"

section \<open>Notions used to state the properties\<close>

text \<open>
  The well-formed point batch and textured triangle batch: the arrays that the
  extension adds have the extent of the others.
\<close>

definition GLRenderPoints_ok :: "'f GLRenderPoints \<Rightarrow> bool" where
  "GLRenderPoints_ok b \<longleftrightarrow>
     batch_ok points_maxVertices b \<and> length (m_sizes b) = nat points_maxVertices"

definition GLRenderTexturedTriangles_ok :: "'f GLRenderTexturedTriangles \<Rightarrow> bool" where
  "GLRenderTexturedTriangles_ok b \<longleftrightarrow>
     batch_ok triangles_maxVertices b \<and>
     length (m_texCoordinates b) = nat triangles_maxVertices \<and>
     length (m_materials b) = nat triangles_maxVertices"

text \<open>
  What the auto-flush discipline of a batch means at a state \<open>b\<close>, for the capacity
  \<open>cap\<close>, the well-formedness \<open>ok\<close>, the call \<open>vertex\<close> that appends the entry with
  position \<open>v\<close> and colour \<open>c\<close>, and \<open>flush\<close>:
  \<^item> a well-formed batch holds at most \<open>cap\<close> entries;
  \<^item> on a well-formed batch \<open>vertex\<close> returns a well-formed batch that has received
    \<open>(v, c)\<close> after all earlier entries; when the batch held exactly \<open>cap\<close> entries,
    exactly one draw call was issued, for those \<open>cap\<close> entries, and the batch holds
    one entry afterwards; otherwise no draw call was issued and the count grew by one;
  \<^item> \<open>flush\<close> keeps a batch well formed and leaves the count at zero; on an empty batch
    it changes nothing, on any other it issues one draw call for the buffered entries.
\<close>

definition auto_flush ::
  "int \<Rightarrow> (('f, 'z) GLRenderLines_scheme \<Rightarrow> bool)
     \<Rightarrow> (('f, 'z) GLRenderLines_scheme \<Rightarrow> error + ('f, 'z) GLRenderLines_scheme)
     \<Rightarrow> (('f, 'z) GLRenderLines_scheme \<Rightarrow> ('f, 'z) GLRenderLines_scheme)
     \<Rightarrow> 'f b2Vec2 \<Rightarrow> 'f b2Color \<Rightarrow> ('f, 'z) GLRenderLines_scheme \<Rightarrow> bool" where
  "auto_flush cap ok vertex flush v c b \<longleftrightarrow>
     (ok b \<longrightarrow> 0 \<le> m_count b \<and> m_count b \<le> cap) \<and>
     (ok b \<longrightarrow>
        (\<exists>b'. vertex b = Inr b' \<and> ok b' \<and> emitted b' = emitted b @ [(v, c)] \<and>
           (if m_count b = cap
            then gl_draws b' = gl_draws b @ [buffered b] \<and> length (buffered b) = nat cap \<and>
                 m_count b' = 1
            else gl_draws b' = gl_draws b \<and> m_count b' = m_count b + 1))) \<and>
     (ok b \<longrightarrow> ok (flush b)) \<and>
     m_count (flush b) = 0 \<and>
     (if m_count b = 0 then flush b = b
      else gl_draws (flush b) = gl_draws b @ [buffered b])"

text \<open>
  The point of the circle approximation reached from the unit vector \<open>r0\<close> by \<open>k\<close>
  rotations by the increment, with the sine and cosine of the increment taken once.
\<close>

definition circle_point :: "'f float_ops \<Rightarrow> 'f b2Vec2 \<Rightarrow> 'f \<Rightarrow> 'f b2Vec2 \<Rightarrow> nat \<Rightarrow> 'f b2Vec2" where
  "circle_point F center radius r0 k =
     vec_add F center
       (vec_scale F radius
          ((rotated F (sinf F (k_increment F)) (cosf F (k_increment F)) ^^ k) r0))"

section \<open>Properties of the scene (de)serialisation\<close>

lemma toJSON_loop_array:
  "toJSON_loop to_json objs (JArray elems) = Inr (JArray (elems @ map to_json objs))"
  by (induction objs arbitrary: elems) simp_all

lemma toJSON_document:
  "toJSON to_json s =
     Inr (if objects s = [] then JNull else JArray (map to_json (objects s)))"
  by (cases "objects s") (simp_all add: toJSON_def toJSON_loop_array)

lemma items_toJSON_document:
  "items (if objs = [] then JNull else JArray (map to_json objs)) = map to_json objs"
  by simp

lemma load_loop_all_ok:
  "\<forall>val \<in> set vals. from_json (to_json val) w = Inr val \<Longrightarrow>
   load_loop from_json w (map to_json vals) s = (None, s\<lparr>objects := objects s @ vals\<rparr>)"
  by (induction vals arbitrary: s) (simp_all add: add_def)

text \<open>
  C1. An empty Scene State does not serialise to an empty JSON array: no element is
  ever pushed, so \<open>toJSON\<close> returns the default-constructed document, which is null.
\<close>

theorem toJSON_empty_is_null:
  "toJSON to_json \<lparr>objects = []\<rparr> = Inr JNull \<and>
   toJSON to_json \<lparr>objects = []\<rparr> \<noteq> Inr (JArray [])"
  by (simp add: toJSON_def)

text \<open>
  C2 (amended). \<open>loadJSON\<close> returns false exactly when the path cannot be opened,
  and then leaves the caller's document as it was; it returns true exactly when the
  path opens and its content parses, and then the document is the parsed one; and when
  the path opens but its content does not parse, the call returns nothing at all: the
  parser's exception leaves \<open>loadJSON\<close>.
\<close>

theorem loadJSON_outcomes:
  "(loadJSON fs j filePath = Inr (False, j') \<longleftrightarrow> readable fs filePath = None \<and> j' = j) \<and>
   (loadJSON fs j filePath = Inr (True, j') \<longleftrightarrow> readable fs filePath = Some (JSONText j')) \<and>
   (loadJSON fs j filePath = Inl e \<longleftrightarrow> readable fs filePath = Some NotJSON \<and> e = ParseError)"
  by (auto simp: loadJSON_def split: option.splits file_content.splits)

text \<open>
  The claim as stated fails where a file opens and holds malformed text: \<open>loadJSON\<close>
  does not return false there, it ends in the parse error.
\<close>

theorem loadJSON_malformed_counterexample:
  "readable \<lparr>readable = [''scene.json'' \<mapsto> NotJSON], writable = (\<lambda>p. True)\<rparr> ''scene.json''
     = Some NotJSON \<and>
   loadJSON \<lparr>readable = [''scene.json'' \<mapsto> NotJSON], writable = (\<lambda>p. True)\<rparr> JNull ''scene.json''
     = Inl ParseError \<and>
   loadJSON \<lparr>readable = [''scene.json'' \<mapsto> NotJSON], writable = (\<lambda>p. True)\<rparr> JNull ''scene.json''
     \<noteq> Inr (False, JNull)"
  by (simp add: loadJSON_def)

text \<open>
  C4 (amended). A failed read never changes the Scene State, whatever it held. When
  \<open>loadJSON\<close> returns false (the path cannot be opened, as for a file that does not
  exist), \<open>loadFromJSONFile\<close> returns false and the state is what it was before the
  call. When the file opens but its content does not parse, \<open>loadFromJSONFile\<close> does
  not return false: the parse error passes through it, and the state is again what it
  was, since \<open>clear()\<close> comes after the read. With a null world the function returns
  false without reading anything.
\<close>

theorem loadFromJSONFile_failed_read_keeps_objects:
  "(loadJSON fs JNull fromFile = Inr (False, j') \<longrightarrow>
      loadFromJSONFile from_json fs fromFile toWorld s = (Inr False, s)) \<and>
   (loadJSON fs JNull fromFile = Inl e \<longrightarrow>
      loadFromJSONFile from_json fs fromFile (Some w) s = (Inl e, s)) \<and>
   loadFromJSONFile from_json fs fromFile None s = (Inr False, s)"
  by (simp add: loadFromJSONFile_def split: option.splits)

theorem loadFromJSONFile_failed_read_witness:
  "loadJSON \<lparr>readable = [''bad.json'' \<mapsto> NotJSON], writable = (\<lambda>p. True)\<rparr> JNull ''missing.json''
     = Inr (False, JNull) \<and>
   loadFromJSONFile (\<lambda>v (w::unit). Inr v)
       \<lparr>readable = [''bad.json'' \<mapsto> NotJSON], writable = (\<lambda>p. True)\<rparr> ''missing.json'' (Some ())
       \<lparr>objects = [JInt 1, JInt 2]\<rparr>
     = (Inr False, \<lparr>objects = [JInt 1, JInt 2]\<rparr>) \<and>
   loadJSON \<lparr>readable = [''bad.json'' \<mapsto> NotJSON], writable = (\<lambda>p. True)\<rparr> JNull ''bad.json''
     = Inl ParseError \<and>
   loadFromJSONFile (\<lambda>v (w::unit). Inr v)
       \<lparr>readable = [''bad.json'' \<mapsto> NotJSON], writable = (\<lambda>p. True)\<rparr> ''bad.json'' (Some ())
       \<lparr>objects = [JInt 1, JInt 2]\<rparr>
     = (Inl ParseError, \<lparr>objects = [JInt 1, JInt 2]\<rparr>)"
proof -
  have r1: "loadJSON \<lparr>readable = [''bad.json'' \<mapsto> NotJSON], writable = (\<lambda>p. True)\<rparr> JNull
              ''missing.json'' = Inr (False, JNull)"
    by (simp add: loadJSON_def)
  have r2: "loadJSON \<lparr>readable = [''bad.json'' \<mapsto> NotJSON], writable = (\<lambda>p. True)\<rparr> JNull
              ''bad.json'' = Inl ParseError"
    by (simp add: loadJSON_def)
  show ?thesis
    using r1 r2
      loadFromJSONFile_failed_read_keeps_objects
        [of "\<lparr>readable = [''bad.json'' \<mapsto> NotJSON], writable = (\<lambda>p. True)\<rparr>" "''missing.json''"
            JNull "\<lambda>v (w::unit). Inr v" "Some ()" "\<lparr>objects = [JInt 1, JInt 2]\<rparr>"]
      loadFromJSONFile_failed_read_keeps_objects
        [of "\<lparr>readable = [''bad.json'' \<mapsto> NotJSON], writable = (\<lambda>p. True)\<rparr>" "''bad.json''"
            _ "\<lambda>v (w::unit). Inr v" _ "\<lparr>objects = [JInt 1, JInt 2]\<rparr>" ParseError "()"]
    by simp
qed

text \<open>
  The claim as stated fails for a file that opens and holds malformed text: the load
  fails, the state is kept, but \<open>loadFromJSONFile\<close> does not return false.
\<close>

theorem loadFromJSONFile_malformed_counterexample:
  "loadFromJSONFile (\<lambda>v (w::unit). Inr v)
       \<lparr>readable = [''bad.json'' \<mapsto> NotJSON], writable = (\<lambda>p. True)\<rparr> ''bad.json'' (Some ())
       \<lparr>objects = [JInt 1, JInt 2]\<rparr>
     = (Inl ParseError, \<lparr>objects = [JInt 1, JInt 2]\<rparr>) \<and>
   fst (loadFromJSONFile (\<lambda>v (w::unit). Inr v)
       \<lparr>readable = [''bad.json'' \<mapsto> NotJSON], writable = (\<lambda>p. True)\<rparr> ''bad.json'' (Some ())
       \<lparr>objects = [JInt 1, JInt 2]\<rparr>)
     \<noteq> Inr False"
  by (simp add: loadFromJSONFile_def loadJSON_def)

text \<open>
  C5. Saving a Scene State to a path that can be written and loading that path back
  gives the same object list (same length, same objects, same order), for objects that
  \<open>from_json\<close> rebuilds from their own \<open>to_json\<close> document. The saved document has
  one element per object, in list order.
\<close>

theorem save_then_load_roundtrip:
  assumes w: "writable fs toFile"
      and rt: "\<forall>obj \<in> set (objects s). from_json (to_json obj) w' = Inr obj"
  shows "\<exists>j fs'. saveToJSONFile to_json fs (Some w) toFile s = (Inr True, fs') \<and>
           readable fs' toFile = Some (JSONText j) \<and>
           items j = map to_json (objects s) \<and>
           loadFromJSONFile from_json fs' toFile (Some w') s0 = (Inr True, s)"
proof -
  define j where "j = (if objects s = [] then JNull else JArray (map to_json (objects s)))"
  define fs' where "fs' = fs\<lparr>readable := (readable fs)(toFile \<mapsto> JSONText j)\<rparr>"
  have doc: "toJSON to_json s = Inr j"
    by (simp add: toJSON_document j_def)
  have saved: "saveToJSONFile to_json fs (Some w) toFile s = (Inr True, fs')"
    using w by (simp add: saveToJSONFile_def doc saveJSON_def fs'_def)
  have content: "readable fs' toFile = Some (JSONText j)"
    by (simp add: fs'_def)
  have its: "items j = map to_json (objects s)"
    unfolding j_def by (rule items_toJSON_document)
  have read: "loadJSON fs' JNull toFile = Inr (True, j)"
    by (simp add: loadJSON_def content)
  have loop: "load_loop from_json w' (items j) (clear s0) = (None, s)"
    using rt load_loop_all_ok [of "objects s" from_json to_json w' "clear s0"]
    by (simp add: its clear_def)
  have loaded: "loadFromJSONFile from_json fs' toFile (Some w') s0 = (Inr True, s)"
    by (simp add: loadFromJSONFile_def read loop)
  from saved content its loaded show ?thesis by blast
qed

theorem save_then_load_roundtrip_witness:
  "writable \<lparr>readable = Map.empty, writable = (\<lambda>p. True)\<rparr> ''scene.json'' \<and>
   (\<exists>j fs'. saveToJSONFile (\<lambda>v. v) \<lparr>readable = Map.empty, writable = (\<lambda>p. True)\<rparr>
                (Some ()) ''scene.json'' \<lparr>objects = [JInt 1, JString ''box'']\<rparr> = (Inr True, fs') \<and>
      readable fs' ''scene.json'' = Some (JSONText j) \<and>
      items j = [JInt 1, JString ''box''] \<and>
      loadFromJSONFile (\<lambda>v (w::unit). Inr v) fs' ''scene.json'' (Some ()) \<lparr>objects = []\<rparr>
        = (Inr True, \<lparr>objects = [JInt 1, JString ''box'']\<rparr>))"
  using save_then_load_roundtrip
    [of "\<lparr>readable = Map.empty, writable = (\<lambda>p. True)\<rparr>" "''scene.json''"
        "\<lparr>objects = [JInt 1, JString ''box'']\<rparr>" "\<lambda>v (w::unit). Inr v" "\<lambda>v. v" "()" "()"
        "\<lparr>objects = []\<rparr>"]
  by simp

section \<open>Properties of the batches\<close>

lemma buffered_snoc:
  assumes "0 \<le> m_count b" "nat (m_count b) < length (m_vertices b)"
    "nat (m_count b) < length (m_colors b)"
    "m_vertices b' = (m_vertices b)[nat (m_count b) := v]"
    "m_colors b' = (m_colors b)[nat (m_count b) := c]"
    "m_count b' = m_count b + 1"
  shows "buffered b' = buffered b @ [(v, c)]"
proof -
  have s: "nat (m_count b + 1) = Suc (nat (m_count b))"
    using assms(1) by simp
  show ?thesis
    using assms(2-6) by (simp add: buffered_def s take_Suc_conv_app_nth)
qed

lemma buffered_full:
  "batch_ok cap b \<Longrightarrow> m_count b = cap \<Longrightarrow> length (buffered b) = nat cap"
  by (simp add: batch_ok_def buffered_def)

lemma buffered_empty:
  "m_count b = 0 \<Longrightarrow> buffered b = []"
  by (simp add: buffered_def)

text \<open>
  One lemma for the four \<open>Vertex\<close> functions: what follows from the shape they share,
  a flush when the batch is full and then a write at \<open>m_count\<close>.
\<close>

lemma vertex_step:
  fixes b b1 b' :: "('f, 'z) GLRenderLines_scheme"
  assumes ok: "batch_ok cap b" and cap: "0 < cap"
    and b1: "b1 = (if m_count b = cap then flushed else b)"
    and fl: "m_vertices flushed = m_vertices b" "m_colors flushed = m_colors b"
      "m_count flushed = 0" "gl_draws flushed = gl_draws b @ [buffered b]"
    and wr: "m_vertices b' = (m_vertices b1)[nat (m_count b1) := v]"
      "m_colors b' = (m_colors b1)[nat (m_count b1) := c]"
      "m_count b' = m_count b1 + 1" "gl_draws b' = gl_draws b1"
  shows "0 \<le> m_count b1 \<and> m_count b1 < cap \<and> batch_ok cap b' \<and>
         emitted b' = emitted b @ [(v, c)] \<and>
         (if m_count b = cap
          then gl_draws b' = gl_draws b @ [buffered b] \<and> length (buffered b) = nat cap \<and>
               m_count b' = 1
          else gl_draws b' = gl_draws b \<and> m_count b' = m_count b + 1)"
proof (cases "m_count b = cap")
  case True
  then have eq: "b1 = flushed" by (simp add: b1)
  have pre: "0 \<le> m_count b1" "nat (m_count b1) < length (m_vertices b1)"
    "nat (m_count b1) < length (m_colors b1)"
    using ok cap by (simp_all add: eq fl batch_ok_def)
  have "buffered b' = buffered b1 @ [(v, c)]"
    using pre wr(1-3) by (rule buffered_snoc)
  moreover have "buffered b1 = []"
    by (simp add: eq fl buffered_empty)
  ultimately have "emitted b' = emitted b @ [(v, c)]"
    by (simp add: emitted_def wr eq fl)
  then show ?thesis
    using True ok cap buffered_full [OF ok True]
    by (simp add: eq fl wr batch_ok_def)
next
  case False
  then have eq: "b1 = b" by (simp add: b1)
  have pre: "0 \<le> m_count b1" "nat (m_count b1) < length (m_vertices b1)"
    "nat (m_count b1) < length (m_colors b1)"
    using ok False by (auto simp: eq batch_ok_def)
  have "buffered b' = buffered b1 @ [(v, c)]"
    using pre wr(1-3) by (rule buffered_snoc)
  then have "emitted b' = emitted b @ [(v, c)]"
    by (simp add: emitted_def wr eq)
  then show ?thesis
    using False ok by (auto simp: eq wr batch_ok_def)
qed

lemma GLRenderLines_Vertex_step:
  assumes "batch_ok lines_maxVertices b"
  shows "\<exists>b'. GLRenderLines_Vertex v c b = Inr b' \<and> batch_ok lines_maxVertices b' \<and>
           emitted b' = emitted b @ [(v, c)] \<and>
           (if m_count b = lines_maxVertices
            then gl_draws b' = gl_draws b @ [buffered b] \<and>
                 length (buffered b) = nat lines_maxVertices \<and> m_count b' = 1
            else gl_draws b' = gl_draws b \<and> m_count b' = m_count b + 1)"
proof -
  define flushed where "flushed = b\<lparr>gl_draws := gl_draws b @ [buffered b], m_count := 0\<rparr>"
  define b1 where "b1 = (if m_count b = lines_maxVertices then flushed else b)"
  define b' where "b' = b1\<lparr>m_vertices := (m_vertices b1)[nat (m_count b1) := v],
                            m_colors := (m_colors b1)[nat (m_count b1) := c],
                            m_count := m_count b1 + 1\<rparr>"
  have step: "0 \<le> m_count b1 \<and> m_count b1 < lines_maxVertices \<and> batch_ok lines_maxVertices b' \<and>
         emitted b' = emitted b @ [(v, c)] \<and>
         (if m_count b = lines_maxVertices
          then gl_draws b' = gl_draws b @ [buffered b] \<and>
               length (buffered b) = nat lines_maxVertices \<and> m_count b' = 1
          else gl_draws b' = gl_draws b \<and> m_count b' = m_count b + 1)"
    by (rule vertex_step [OF assms _ b1_def])
       (simp_all add: flushed_def b'_def lines_maxVertices_def)
  have pre: "(if m_count b = lines_maxVertices then GLRenderLines_Flush b else b) = b1"
    by (simp add: b1_def flushed_def GLRenderLines_Flush_def lines_maxVertices_def)
  have "GLRenderLines_Vertex v c b = Inr b'"
    unfolding GLRenderLines_Vertex_def pre using step by (simp add: b'_def)
  with step show ?thesis by blast
qed

lemma GLRenderTriangles_Vertex_step:
  assumes "batch_ok triangles_maxVertices b"
  shows "\<exists>b'. GLRenderTriangles_Vertex v c b = Inr b' \<and> batch_ok triangles_maxVertices b' \<and>
           emitted b' = emitted b @ [(v, c)] \<and>
           (if m_count b = triangles_maxVertices
            then gl_draws b' = gl_draws b @ [buffered b] \<and>
                 length (buffered b) = nat triangles_maxVertices \<and> m_count b' = 1
            else gl_draws b' = gl_draws b \<and> m_count b' = m_count b + 1)"
proof -
  define flushed where "flushed = b\<lparr>gl_draws := gl_draws b @ [buffered b], m_count := 0\<rparr>"
  define b1 where "b1 = (if m_count b = triangles_maxVertices then flushed else b)"
  define b' where "b' = b1\<lparr>m_vertices := (m_vertices b1)[nat (m_count b1) := v],
                            m_colors := (m_colors b1)[nat (m_count b1) := c],
                            m_count := m_count b1 + 1\<rparr>"
  have step: "0 \<le> m_count b1 \<and> m_count b1 < triangles_maxVertices \<and>
         batch_ok triangles_maxVertices b' \<and>
         emitted b' = emitted b @ [(v, c)] \<and>
         (if m_count b = triangles_maxVertices
          then gl_draws b' = gl_draws b @ [buffered b] \<and>
               length (buffered b) = nat triangles_maxVertices \<and> m_count b' = 1
          else gl_draws b' = gl_draws b \<and> m_count b' = m_count b + 1)"
    by (rule vertex_step [OF assms _ b1_def])
       (simp_all add: flushed_def b'_def triangles_maxVertices_def)
  have pre: "(if m_count b = triangles_maxVertices then GLRenderTriangles_Flush b else b) = b1"
    by (simp add: b1_def flushed_def GLRenderTriangles_Flush_def triangles_maxVertices_def)
  have "GLRenderTriangles_Vertex v c b = Inr b'"
    unfolding GLRenderTriangles_Vertex_def pre using step by (simp add: b'_def)
  with step show ?thesis by blast
qed

lemma GLRenderPoints_Vertex_step:
  assumes "GLRenderPoints_ok b"
  shows "\<exists>b'. GLRenderPoints_Vertex v c sz b = Inr b' \<and> GLRenderPoints_ok b' \<and>
           emitted b' = emitted b @ [(v, c)] \<and>
           (if m_count b = points_maxVertices
            then gl_draws b' = gl_draws b @ [buffered b] \<and>
                 length (buffered b) = nat points_maxVertices \<and> m_count b' = 1
            else gl_draws b' = gl_draws b \<and> m_count b' = m_count b + 1)"
proof -
  define flushed where "flushed = b\<lparr>gl_draws := gl_draws b @ [buffered b], m_count := 0\<rparr>"
  define b1 where "b1 = (if m_count b = points_maxVertices then flushed else b)"
  define b' where "b' = b1\<lparr>m_vertices := (m_vertices b1)[nat (m_count b1) := v],
                            m_colors := (m_colors b1)[nat (m_count b1) := c],
                            m_sizes := (m_sizes b1)[nat (m_count b1) := sz],
                            m_count := m_count b1 + 1\<rparr>"
  have ok: "batch_ok points_maxVertices b" and sizes: "length (m_sizes b) = nat points_maxVertices"
    using assms by (simp_all add: GLRenderPoints_ok_def)
  have step: "0 \<le> m_count b1 \<and> m_count b1 < points_maxVertices \<and>
         batch_ok points_maxVertices b' \<and>
         emitted b' = emitted b @ [(v, c)] \<and>
         (if m_count b = points_maxVertices
          then gl_draws b' = gl_draws b @ [buffered b] \<and>
               length (buffered b) = nat points_maxVertices \<and> m_count b' = 1
          else gl_draws b' = gl_draws b \<and> m_count b' = m_count b + 1)"
    by (rule vertex_step [OF ok _ b1_def])
       (simp_all add: flushed_def b'_def points_maxVertices_def)
  have "length (m_sizes b') = nat points_maxVertices"
    using sizes by (simp add: b'_def b1_def flushed_def)
  with step have ok': "GLRenderPoints_ok b'"
    by (simp add: GLRenderPoints_ok_def)
  have pre: "(if m_count b = points_maxVertices then GLRenderPoints_Flush b else b) = b1"
    by (simp add: b1_def flushed_def GLRenderPoints_Flush_def points_maxVertices_def)
  have "GLRenderPoints_Vertex v c sz b = Inr b'"
    unfolding GLRenderPoints_Vertex_def pre using step by (simp add: b'_def)
  with step ok' show ?thesis by blast
qed

lemma GLRenderTexturedTriangles_Vertex_step:
  assumes "GLRenderTexturedTriangles_ok b"
  shows "\<exists>b'. GLRenderTexturedTriangles_Vertex v c t m b = Inr b' \<and>
           GLRenderTexturedTriangles_ok b' \<and>
           emitted b' = emitted b @ [(v, c)] \<and>
           (if m_count b = triangles_maxVertices
            then gl_draws b' = gl_draws b @ [buffered b] \<and>
                 length (buffered b) = nat triangles_maxVertices \<and> m_count b' = 1
            else gl_draws b' = gl_draws b \<and> m_count b' = m_count b + 1)"
proof -
  define flushed where "flushed = b\<lparr>gl_draws := gl_draws b @ [buffered b], m_count := 0\<rparr>"
  define b1 where "b1 = (if m_count b = triangles_maxVertices then flushed else b)"
  define b' where "b' = b1\<lparr>m_vertices := (m_vertices b1)[nat (m_count b1) := v],
                            m_colors := (m_colors b1)[nat (m_count b1) := c],
                            m_texCoordinates := (m_texCoordinates b1)[nat (m_count b1) := t],
                            m_materials := (m_materials b1)[nat (m_count b1) := m],
                            m_count := m_count b1 + 1\<rparr>"
  have ok: "batch_ok triangles_maxVertices b"
    and more: "length (m_texCoordinates b) = nat triangles_maxVertices"
      "length (m_materials b) = nat triangles_maxVertices"
    using assms by (simp_all add: GLRenderTexturedTriangles_ok_def)
  have step: "0 \<le> m_count b1 \<and> m_count b1 < triangles_maxVertices \<and>
         batch_ok triangles_maxVertices b' \<and>
         emitted b' = emitted b @ [(v, c)] \<and>
         (if m_count b = triangles_maxVertices
          then gl_draws b' = gl_draws b @ [buffered b] \<and>
               length (buffered b) = nat triangles_maxVertices \<and> m_count b' = 1
          else gl_draws b' = gl_draws b \<and> m_count b' = m_count b + 1)"
    by (rule vertex_step [OF ok _ b1_def])
       (simp_all add: flushed_def b'_def triangles_maxVertices_def)
  have "length (m_texCoordinates b') = nat triangles_maxVertices"
    "length (m_materials b') = nat triangles_maxVertices"
    using more by (simp_all add: b'_def b1_def flushed_def)
  with step have ok': "GLRenderTexturedTriangles_ok b'"
    by (simp add: GLRenderTexturedTriangles_ok_def)
  have pre: "(if m_count b = triangles_maxVertices then GLRenderTexturedTriangles_Flush b else b) = b1"
    by (simp add: b1_def flushed_def GLRenderTexturedTriangles_Flush_def triangles_maxVertices_def)
  have "GLRenderTexturedTriangles_Vertex v c t m b = Inr b'"
    unfolding GLRenderTexturedTriangles_Vertex_def pre using step by (simp add: b'_def)
  with step ok' show ?thesis by blast
qed

lemma flush_facts:
  fixes b :: "('f, 'z) GLRenderLines_scheme"
  assumes "flush b = (if m_count b = 0 then b
                      else b\<lparr>gl_draws := gl_draws b @ [buffered b], m_count := 0\<rparr>)"
  shows "(batch_ok cap b \<longrightarrow> batch_ok cap (flush b)) \<and> m_count (flush b) = 0 \<and>
         (if m_count b = 0 then flush b = b
          else gl_draws (flush b) = gl_draws b @ [buffered b])"
  by (simp add: assms batch_ok_def)

section \<open>Properties of the drawing loops\<close>

declare DrawPolygon_loop.simps [simp del]
declare DrawSolidPolygon_loop.simps [simp del]
declare circle_outline_loop.simps [simp del]
declare circle_fill_loop.simps [simp del]

lemma DrawPolygon_loop_emits:
  assumes "batch_ok lines_maxVertices ls" "0 \<le> i" "i \<le> vertexCount"
    "vertexCount \<le> int (length vertices)"
  shows "\<exists>ls'. DrawPolygon_loop vertices vertexCount color i p1 ls = Inr ls' \<and>
           batch_ok lines_maxVertices ls' \<and>
           emitted ls' = emitted ls @
             concat (map (\<lambda>k. [(if k = nat i then p1 else vertices ! (k - 1), color),
                                (vertices ! k, color)])
                       [nat i ..< nat vertexCount])"
  using assms
proof (induction vertices vertexCount color i p1 ls rule: DrawPolygon_loop.induct)
  case (1 vertices vertexCount color i p1 ls)
  show ?case
  proof (cases "i < vertexCount")
    case False
    with "1.prems" show ?thesis by (simp add: DrawPolygon_loop.simps)
  next
    case True
    with "1.prems" have rd: "read_at vertices i = Inr (vertices ! nat i)"
      by (simp add: read_at_def)
    obtain ls1 where v1: "GLRenderLines_Vertex p1 color ls = Inr ls1"
      and ok1: "batch_ok lines_maxVertices ls1"
      and e1: "emitted ls1 = emitted ls @ [(p1, color)]"
      using GLRenderLines_Vertex_step [OF "1.prems"(1)] by blast
    obtain ls2 where v2: "GLRenderLines_Vertex (vertices ! nat i) color ls1 = Inr ls2"
      and ok2: "batch_ok lines_maxVertices ls2"
      and e2: "emitted ls2 = emitted ls1 @ [(vertices ! nat i, color)]"
      using GLRenderLines_Vertex_step [OF ok1] by blast
    from "1.IH" [OF True rd v1 v2 ok2] True "1.prems"
    obtain ls' where r: "DrawPolygon_loop vertices vertexCount color (i + 1) (vertices ! nat i) ls2 = Inr ls'"
      and ok': "batch_ok lines_maxVertices ls'"
      and e': "emitted ls' = emitted ls2 @
             concat (map (\<lambda>k. [(if k = nat (i + 1) then vertices ! nat i else vertices ! (k - 1), color),
                                (vertices ! k, color)])
                       [nat (i + 1) ..< nat vertexCount])"
      by auto
    have step: "DrawPolygon_loop vertices vertexCount color i p1 ls = Inr ls'"
      using True rd v1 v2 r by (subst DrawPolygon_loop.simps) simp
    have up: "[nat i ..< nat vertexCount] = nat i # [nat (i + 1) ..< nat vertexCount]"
      using True "1.prems" by (simp add: upt_conv_Cons nat_add_distrib)
    have same: "map (\<lambda>k. [(if k = nat (i + 1) then vertices ! nat i else vertices ! (k - 1), color),
                            (vertices ! k, color)])
                  [nat (i + 1) ..< nat vertexCount]
              = map (\<lambda>k. [(if k = nat i then p1 else vertices ! (k - 1), color), (vertices ! k, color)])
                  [nat (i + 1) ..< nat vertexCount]"
      using "1.prems" by (intro map_cong) (auto simp: nat_add_distrib)
    show ?thesis
      using step ok' e' e2 e1 by (simp add: up same)
  qed
qed

lemma closing_edges:
  assumes "0 < n"
  shows "map (\<lambda>k. [(if k = 0 then vs ! (n - 1) else vs ! (k - 1), c), (vs ! k, c)]) [0 ..< n]
       = map (\<lambda>k. [(vs ! ((k + n - 1) mod n), c), (vs ! k, c)]) [0 ..< n]"
proof (intro map_cong refl)
  fix k assume "k \<in> set [0 ..< n]"
  then have k: "k < n" by simp
  show "[(if k = 0 then vs ! (n - 1) else vs ! (k - 1), c), (vs ! k, c)]
      = [(vs ! ((k + n - 1) mod n), c), (vs ! k, c)]"
  proof (cases "k = 0")
    case True
    with assms show ?thesis by simp
  next
    case False
    then have "k + n - 1 = (k - 1) + n" by simp
    then have "(k + n - 1) mod n = (k - 1) mod n" by (simp only: mod_add_self2)
    also have "\<dots> = k - 1" using k by simp
    finally show ?thesis using False by simp
  qed
qed

lemma length_concat_const:
  "(\<And>x. x \<in> set xs \<Longrightarrow> length (f x) = m) \<Longrightarrow> length (concat (map f xs)) = m * length xs"
  by (induction xs) simp_all

lemma DrawPolygon_emits:
  assumes ok: "batch_ok lines_maxVertices (m_lines st)"
    and n: "1 \<le> vertexCount" "vertexCount \<le> int (length vertices)"
  shows "\<exists>ls. DrawPolygon vertices vertexCount color st = Inr (st\<lparr>m_lines := ls\<rparr>) \<and>
           batch_ok lines_maxVertices ls \<and>
           emitted ls = emitted (m_lines st) @
             concat (map (\<lambda>k. [(vertices ! ((k + nat vertexCount - 1) mod nat vertexCount), color),
                                (vertices ! k, color)])
                       [0 ..< nat vertexCount])"
proof -
  have rd: "read_at vertices (vertexCount - 1) = Inr (vertices ! (nat vertexCount - 1))"
    using n by (simp add: read_at_def nat_diff_distrib)
  have "\<exists>ls. DrawPolygon_loop vertices vertexCount color 0 (vertices ! (nat vertexCount - 1))
                (m_lines st) = Inr ls \<and>
           batch_ok lines_maxVertices ls \<and>
           emitted ls = emitted (m_lines st) @
             concat (map (\<lambda>k. [(if k = nat 0 then vertices ! (nat vertexCount - 1)
                                 else vertices ! (k - 1), color), (vertices ! k, color)])
                       [nat 0 ..< nat vertexCount])"
    by (rule DrawPolygon_loop_emits [OF ok]) (use n in simp_all)
  then obtain ls where l: "DrawPolygon_loop vertices vertexCount color 0 (vertices ! (nat vertexCount - 1))
                        (m_lines st) = Inr ls"
    and ok': "batch_ok lines_maxVertices ls"
    and e: "emitted ls = emitted (m_lines st) @
             concat (map (\<lambda>k. [(if k = nat 0 then vertices ! (nat vertexCount - 1)
                                 else vertices ! (k - 1), color), (vertices ! k, color)])
                       [nat 0 ..< nat vertexCount])"
    by blast
  have pos: "0 < nat vertexCount" using n by simp
  have "DrawPolygon vertices vertexCount color st = Inr (st\<lparr>m_lines := ls\<rparr>)"
    using l by (simp add: DrawPolygon_def rd)
  moreover have "emitted ls = emitted (m_lines st) @
             concat (map (\<lambda>k. [(vertices ! ((k + nat vertexCount - 1) mod nat vertexCount), color),
                                (vertices ! k, color)])
                       [0 ..< nat vertexCount])"
    using e closing_edges [OF pos, of vertices color] by simp
  ultimately show ?thesis using ok' by blast
qed

lemma DrawSolidPolygon_loop_emits:
  assumes "batch_ok triangles_maxVertices ts" "1 \<le> i" "vertexCount \<le> int (length vertices)"
  shows "\<exists>ts'. DrawSolidPolygon_loop vertices vertexCount fillColor i ts = Inr ts' \<and>
           batch_ok triangles_maxVertices ts' \<and>
           emitted ts' = emitted ts @
             concat (map (\<lambda>k. [(vertices ! 0, fillColor), (vertices ! k, fillColor),
                                (vertices ! (k + 1), fillColor)])
                       [nat i ..< nat (vertexCount - 1)])"
  using assms
proof (induction vertices vertexCount fillColor i ts rule: DrawSolidPolygon_loop.induct)
  case (1 vertices vertexCount fillColor i ts)
  show ?case
  proof (cases "i < vertexCount - 1")
    case False
    with "1.prems" show ?thesis by (simp add: DrawSolidPolygon_loop.simps)
  next
    case True
    with "1.prems" have len: "i + 1 < int (length vertices)" by simp
    with "1.prems" have rd0: "read_at vertices 0 = Inr (vertices ! 0)"
      and rdi: "read_at vertices i = Inr (vertices ! nat i)"
      and rds: "read_at vertices (i + 1) = Inr (vertices ! (nat i + 1))"
      by (auto simp: read_at_def nat_add_distrib)
    obtain ts1 where v1: "GLRenderTriangles_Vertex (vertices ! 0) fillColor ts = Inr ts1"
      and ok1: "batch_ok triangles_maxVertices ts1"
      and e1: "emitted ts1 = emitted ts @ [(vertices ! 0, fillColor)]"
      using GLRenderTriangles_Vertex_step [OF "1.prems"(1)] by blast
    obtain ts2 where v2: "GLRenderTriangles_Vertex (vertices ! nat i) fillColor ts1 = Inr ts2"
      and ok2: "batch_ok triangles_maxVertices ts2"
      and e2: "emitted ts2 = emitted ts1 @ [(vertices ! nat i, fillColor)]"
      using GLRenderTriangles_Vertex_step [OF ok1] by blast
    obtain ts3 where v3: "GLRenderTriangles_Vertex (vertices ! (nat i + 1)) fillColor ts2 = Inr ts3"
      and ok3: "batch_ok triangles_maxVertices ts3"
      and e3: "emitted ts3 = emitted ts2 @ [(vertices ! (nat i + 1), fillColor)]"
      using GLRenderTriangles_Vertex_step [OF ok2] by blast
    from "1.IH" [OF True rd0 v1 rdi v2 rds v3 ok3] "1.prems"
    obtain ts' where r: "DrawSolidPolygon_loop vertices vertexCount fillColor (i + 1) ts3 = Inr ts'"
      and ok': "batch_ok triangles_maxVertices ts'"
      and e': "emitted ts' = emitted ts3 @
             concat (map (\<lambda>k. [(vertices ! 0, fillColor), (vertices ! k, fillColor),
                                (vertices ! (k + 1), fillColor)])
                       [nat (i + 1) ..< nat (vertexCount - 1)])"
      by auto
    have step: "DrawSolidPolygon_loop vertices vertexCount fillColor i ts = Inr ts'"
      using True rd0 rdi rds v1 v2 v3 r by (subst DrawSolidPolygon_loop.simps) simp
    have up: "[nat i ..< nat (vertexCount - 1)] = nat i # [nat (i + 1) ..< nat (vertexCount - 1)]"
      using True "1.prems" by (simp add: upt_conv_Cons nat_add_distrib)
    show ?thesis
      using step ok' e' e3 e2 e1 by (simp add: up)
  qed
qed

lemma map_upt_shift:
  "map f [0 ..< Suc m] = f 0 # map (\<lambda>k. f (Suc k)) [0 ..< m]"
  by (induction m) simp_all

lemma circle_outline_loop_emits:
  assumes "batch_ok lines_maxVertices ls" "0 \<le> i" "i \<le> 16"
    "v1 = vec_add F center (vec_scale F radius r1)"
  shows "\<exists>ls'. circle_outline_loop F center radius color sinInc cosInc i r1 v1 ls = Inr ls' \<and>
           batch_ok lines_maxVertices ls' \<and>
           emitted ls' = emitted ls @
             concat (map (\<lambda>k. [(vec_add F center (vec_scale F radius ((rotated F sinInc cosInc ^^ k) r1)), color),
                                (vec_add F center (vec_scale F radius ((rotated F sinInc cosInc ^^ Suc k) r1)), color)])
                       [0 ..< nat (16 - i)])"
  using assms
proof (induction F center radius color sinInc cosInc i r1 v1 ls rule: circle_outline_loop.induct)
  case (1 F center radius color sinInc cosInc i r1 v1 ls)
  show ?case
  proof (cases "i < 16")
    case False
    with "1.prems" show ?thesis by (simp add: circle_outline_loop.simps k_segments_def)
  next
    case True
    define r2 where "r2 = rotated F sinInc cosInc r1"
    define v2 where "v2 = vec_add F center (vec_scale F radius r2)"
    have c: "(of_int i :: rat) < k_segments" using True by (simp add: k_segments_def)
    obtain ls1 where a1: "GLRenderLines_Vertex v1 color ls = Inr ls1"
      and ok1: "batch_ok lines_maxVertices ls1"
      and e1: "emitted ls1 = emitted ls @ [(v1, color)]"
      using GLRenderLines_Vertex_step [OF "1.prems"(1)] by blast
    obtain ls2 where a2: "GLRenderLines_Vertex v2 color ls1 = Inr ls2"
      and ok2: "batch_ok lines_maxVertices ls2"
      and e2: "emitted ls2 = emitted ls1 @ [(v2, color)]"
      using GLRenderLines_Vertex_step [OF ok1] by blast
    from "1.IH" [OF c r2_def v2_def a1 a2 ok2] True "1.prems"
    obtain ls' where r: "circle_outline_loop F center radius color sinInc cosInc (i + 1) r2 v2 ls2 = Inr ls'"
      and ok': "batch_ok lines_maxVertices ls'"
      and e': "emitted ls' = emitted ls2 @
             concat (map (\<lambda>k. [(vec_add F center (vec_scale F radius ((rotated F sinInc cosInc ^^ k) r2)), color),
                                (vec_add F center (vec_scale F radius ((rotated F sinInc cosInc ^^ Suc k) r2)), color)])
                       [0 ..< nat (16 - (i + 1))])"
      by (auto simp: v2_def)
    have step: "circle_outline_loop F center radius color sinInc cosInc i r1 v1 ls = Inr ls'"
      using c a1 a2 r by (subst circle_outline_loop.simps) (simp add: Let_def r2_def v2_def)
    define G where "G = (\<lambda>k. [(vec_add F center (vec_scale F radius ((rotated F sinInc cosInc ^^ k) r1)), color),
                            (vec_add F center (vec_scale F radius ((rotated F sinInc cosInc ^^ Suc k) r1)), color)])"
    have n: "nat (16 - i) = Suc (nat (16 - (i + 1)))" using True by simp
    have sh: "\<And>k. (rotated F sinInc cosInc ^^ k) r2 = (rotated F sinInc cosInc ^^ Suc k) r1"
      by (simp only: r2_def funpow_swap1 funpow.simps comp_def)
    have e'': "emitted ls' = emitted ls2 @ concat (map (\<lambda>k. G (Suc k)) [0 ..< nat (16 - (i + 1))])"
      unfolding e' sh G_def ..
    have g0: "G 0 = [(v1, color), (v2, color)]"
      using "1.prems"(4) by (simp add: G_def v2_def r2_def)
    have "emitted ls' = emitted ls @ concat (map G [0 ..< nat (16 - i)])"
      unfolding n map_upt_shift concat.simps g0 e'' e2 e1 by simp
    then show ?thesis
      using step ok' by (simp add: G_def)
  qed
qed

lemma circle_fill_loop_emits:
  assumes "batch_ok triangles_maxVertices ts" "0 \<le> i" "i \<le> 16"
    "v1 = vec_add F center (vec_scale F radius r1)"
  shows "\<exists>ts'. circle_fill_loop F center radius fillColor sinInc cosInc v0 i r1 v1 ts = Inr ts' \<and>
           batch_ok triangles_maxVertices ts' \<and>
           emitted ts' = emitted ts @
             concat (map (\<lambda>k. [(v0, fillColor),
                                (vec_add F center (vec_scale F radius ((rotated F sinInc cosInc ^^ k) r1)), fillColor),
                                (vec_add F center (vec_scale F radius ((rotated F sinInc cosInc ^^ Suc k) r1)), fillColor)])
                       [0 ..< nat (16 - i)])"
  using assms
proof (induction F center radius fillColor sinInc cosInc v0 i r1 v1 ts rule: circle_fill_loop.induct)
  case (1 F center radius fillColor sinInc cosInc v0 i r1 v1 ts)
  show ?case
  proof (cases "i < 16")
    case False
    with "1.prems" show ?thesis by (simp add: circle_fill_loop.simps k_segments_def)
  next
    case True
    define r2 where "r2 = rotated F sinInc cosInc r1"
    define v2 where "v2 = vec_add F center (vec_scale F radius r2)"
    have c: "(of_int i :: rat) < k_segments" using True by (simp add: k_segments_def)
    obtain ts1 where a1: "GLRenderTriangles_Vertex v0 fillColor ts = Inr ts1"
      and ok1: "batch_ok triangles_maxVertices ts1"
      and e1: "emitted ts1 = emitted ts @ [(v0, fillColor)]"
      using GLRenderTriangles_Vertex_step [OF "1.prems"(1)] by blast
    obtain ts2 where a2: "GLRenderTriangles_Vertex v1 fillColor ts1 = Inr ts2"
      and ok2: "batch_ok triangles_maxVertices ts2"
      and e2: "emitted ts2 = emitted ts1 @ [(v1, fillColor)]"
      using GLRenderTriangles_Vertex_step [OF ok1] by blast
    obtain ts3 where a3: "GLRenderTriangles_Vertex v2 fillColor ts2 = Inr ts3"
      and ok3: "batch_ok triangles_maxVertices ts3"
      and e3: "emitted ts3 = emitted ts2 @ [(v2, fillColor)]"
      using GLRenderTriangles_Vertex_step [OF ok2] by blast
    from "1.IH" [OF c r2_def v2_def a1 a2 a3 ok3] True "1.prems"
    obtain ts' where r: "circle_fill_loop F center radius fillColor sinInc cosInc v0 (i + 1) r2 v2 ts3 = Inr ts'"
      and ok': "batch_ok triangles_maxVertices ts'"
      and e': "emitted ts' = emitted ts3 @
             concat (map (\<lambda>k. [(v0, fillColor),
                                (vec_add F center (vec_scale F radius ((rotated F sinInc cosInc ^^ k) r2)), fillColor),
                                (vec_add F center (vec_scale F radius ((rotated F sinInc cosInc ^^ Suc k) r2)), fillColor)])
                       [0 ..< nat (16 - (i + 1))])"
      by (auto simp: v2_def)
    have step: "circle_fill_loop F center radius fillColor sinInc cosInc v0 i r1 v1 ts = Inr ts'"
      using c a1 a2 a3 r by (subst circle_fill_loop.simps) (simp add: Let_def r2_def v2_def)
    define G where "G = (\<lambda>k. [(v0, fillColor),
                            (vec_add F center (vec_scale F radius ((rotated F sinInc cosInc ^^ k) r1)), fillColor),
                            (vec_add F center (vec_scale F radius ((rotated F sinInc cosInc ^^ Suc k) r1)), fillColor)])"
    have n: "nat (16 - i) = Suc (nat (16 - (i + 1)))" using True by simp
    have sh: "\<And>k. (rotated F sinInc cosInc ^^ k) r2 = (rotated F sinInc cosInc ^^ Suc k) r1"
      by (simp only: r2_def funpow_swap1 funpow.simps comp_def)
    have e'': "emitted ts' = emitted ts3 @ concat (map (\<lambda>k. G (Suc k)) [0 ..< nat (16 - (i + 1))])"
      unfolding e' sh G_def ..
    have g0: "G 0 = [(v0, fillColor), (v1, fillColor), (v2, fillColor)]"
      using "1.prems"(4) by (simp add: G_def v2_def r2_def)
    have "emitted ts' = emitted ts @ concat (map G [0 ..< nat (16 - i)])"
      unfolding n map_upt_shift concat.simps g0 e'' e3 e2 e1 by simp
    then show ?thesis
      using step ok' by (simp add: G_def)
  qed
qed

section \<open>Properties of the draw functions\<close>

lemma DrawSolidPolygon_effect:
  assumes okt: "batch_ok triangles_maxVertices (m_triangles st)"
    and okl: "batch_ok lines_maxVertices (m_lines st)"
    and n: "1 \<le> vertexCount" "vertexCount \<le> int (length vertices)"
  shows "\<exists>ts ls. DrawSolidPolygon F False vertices vertexCount color st
             = Inr (st\<lparr>m_lines := ls, m_triangles := ts\<rparr>) \<and>
           batch_ok triangles_maxVertices ts \<and> batch_ok lines_maxVertices ls \<and>
           emitted ts = emitted (m_triangles st) @
             concat (map (\<lambda>k. [(vertices ! 0,
                                  fillColor_of F (if m_bIsDebugMode st then lit F (1/2) else lit F 1) color),
                                (vertices ! k,
                                  fillColor_of F (if m_bIsDebugMode st then lit F (1/2) else lit F 1) color),
                                (vertices ! (k + 1),
                                  fillColor_of F (if m_bIsDebugMode st then lit F (1/2) else lit F 1) color)])
                       [1 ..< nat vertexCount - 1]) \<and>
           emitted ls = emitted (m_lines st) @
             (if m_bIsDebugMode st
              then concat (map (\<lambda>k. [(vertices ! ((k + nat vertexCount - 1) mod nat vertexCount), color),
                                     (vertices ! k, color)])
                            [0 ..< nat vertexCount])
              else []) \<and>
           (\<not> m_bIsDebugMode st \<longrightarrow> ls = m_lines st)"
proof -
  define fill where "fill = fillColor_of F (if m_bIsDebugMode st then lit F (1/2) else lit F 1) color"
  have "\<exists>ts. DrawSolidPolygon_loop vertices vertexCount fill 1 (m_triangles st) = Inr ts \<and>
          batch_ok triangles_maxVertices ts \<and>
          emitted ts = emitted (m_triangles st) @
            concat (map (\<lambda>k. [(vertices ! 0, fill), (vertices ! k, fill), (vertices ! (k + 1), fill)])
                      [nat 1 ..< nat (vertexCount - 1)])"
    by (rule DrawSolidPolygon_loop_emits [OF okt]) (use n in simp_all)
  then obtain ts where t: "DrawSolidPolygon_loop vertices vertexCount fill 1 (m_triangles st) = Inr ts"
    and okt': "batch_ok triangles_maxVertices ts"
    and et: "emitted ts = emitted (m_triangles st) @
            concat (map (\<lambda>k. [(vertices ! 0, fill), (vertices ! k, fill), (vertices ! (k + 1), fill)])
                      [1 ..< nat vertexCount - 1])"
    using n by (auto simp: nat_diff_distrib)
  show ?thesis
  proof (cases "m_bIsDebugMode st")
    case False
    have "DrawSolidPolygon F False vertices vertexCount color st
            = Inr (st\<lparr>m_lines := m_lines st, m_triangles := ts\<rparr>)"
      using False t by (simp add: DrawSolidPolygon_def fill_def)
    with False okt' okl et show ?thesis
      unfolding fill_def by (intro exI [of _ ts] exI [of _ "m_lines st"]) simp
  next
    case True
    have rd: "read_at vertices (vertexCount - 1) = Inr (vertices ! (nat vertexCount - 1))"
      using n by (simp add: read_at_def nat_diff_distrib)
    have "\<exists>ls. DrawPolygon_loop vertices vertexCount color 0 (vertices ! (nat vertexCount - 1))
                (m_lines st) = Inr ls \<and>
           batch_ok lines_maxVertices ls \<and>
           emitted ls = emitted (m_lines st) @
             concat (map (\<lambda>k. [(if k = nat 0 then vertices ! (nat vertexCount - 1)
                                 else vertices ! (k - 1), color), (vertices ! k, color)])
                       [nat 0 ..< nat vertexCount])"
      by (rule DrawPolygon_loop_emits [OF okl]) (use n in simp_all)
    then obtain ls where l: "DrawPolygon_loop vertices vertexCount color 0
                               (vertices ! (nat vertexCount - 1)) (m_lines st) = Inr ls"
      and okl': "batch_ok lines_maxVertices ls"
      and el: "emitted ls = emitted (m_lines st) @
             concat (map (\<lambda>k. [(if k = 0 then vertices ! (nat vertexCount - 1)
                                 else vertices ! (k - 1), color), (vertices ! k, color)])
                       [0 ..< nat vertexCount])"
      by auto
    have pos: "0 < nat vertexCount" using n by simp
    have el': "emitted ls = emitted (m_lines st) @
             concat (map (\<lambda>k. [(vertices ! ((k + nat vertexCount - 1) mod nat vertexCount), color),
                                (vertices ! k, color)])
                       [0 ..< nat vertexCount])"
      using el closing_edges [OF pos, of vertices color] by simp
    have "DrawSolidPolygon F False vertices vertexCount color st
            = Inr (st\<lparr>m_lines := ls, m_triangles := ts\<rparr>)"
      using True t l rd by (simp add: DrawSolidPolygon_def fill_def)
    with True okt' okl' et el' show ?thesis
      unfolding fill_def by (intro exI [of _ ts] exI [of _ ls]) simp
  qed
qed

lemma DrawCircle_effect:
  assumes okl: "batch_ok lines_maxVertices (m_lines st)"
  shows "\<exists>ls. DrawCircle F center radius color st = Inr (st\<lparr>m_lines := ls\<rparr>) \<and>
           batch_ok lines_maxVertices ls \<and>
           emitted ls = emitted (m_lines st) @
             concat (map (\<lambda>k. [(circle_point F center radius (b2Vec2 (lit F 1) (lit F 0)) k, color),
                                (circle_point F center radius (b2Vec2 (lit F 1) (lit F 0)) (Suc k), color)])
                       [0 ..< 16])"
proof -
  define r0 where "r0 = b2Vec2 (lit F 1) (lit F 0)"
  have "\<exists>ls. circle_outline_loop F center radius color (sinf F (k_increment F)) (cosf F (k_increment F))
                0 r0 (vec_add F center (vec_scale F radius r0)) (m_lines st) = Inr ls \<and>
           batch_ok lines_maxVertices ls \<and>
           emitted ls = emitted (m_lines st) @
             concat (map (\<lambda>k. [(vec_add F center (vec_scale F radius
                                   ((rotated F (sinf F (k_increment F)) (cosf F (k_increment F)) ^^ k) r0)), color),
                                (vec_add F center (vec_scale F radius
                                   ((rotated F (sinf F (k_increment F)) (cosf F (k_increment F)) ^^ Suc k) r0)), color)])
                       [0 ..< nat (16 - 0)])"
    by (rule circle_outline_loop_emits [OF okl]) simp_all
  then obtain ls where l: "circle_outline_loop F center radius color (sinf F (k_increment F))
                (cosf F (k_increment F)) 0 r0 (vec_add F center (vec_scale F radius r0)) (m_lines st) = Inr ls"
    and okl': "batch_ok lines_maxVertices ls"
    and el: "emitted ls = emitted (m_lines st) @
             concat (map (\<lambda>k. [(circle_point F center radius r0 k, color),
                                (circle_point F center radius r0 (Suc k), color)])
                       [0 ..< 16])"
    unfolding circle_point_def by auto
  have "DrawCircle F center radius color st = Inr (st\<lparr>m_lines := ls\<rparr>)"
    using l by (simp add: DrawCircle_def Let_def r0_def)
  with okl' el show ?thesis unfolding r0_def by blast
qed

lemma DrawSolidCircle_effect:
  assumes okt: "batch_ok triangles_maxVertices (m_triangles st)"
    and okl: "batch_ok lines_maxVertices (m_lines st)"
  shows "\<exists>ts ls. DrawSolidCircle F False center radius axis color st
             = Inr (st\<lparr>m_lines := ls, m_triangles := ts\<rparr>) \<and>
           batch_ok triangles_maxVertices ts \<and> batch_ok lines_maxVertices ls \<and>
           emitted ts = emitted (m_triangles st) @
             concat (map (\<lambda>k. [(center, fillColor_of F (lit F (1/2)) color),
                                (circle_point F center radius
                                   (b2Vec2 (cosf F (k_increment F)) (sinf F (k_increment F))) k,
                                 fillColor_of F (lit F (1/2)) color),
                                (circle_point F center radius
                                   (b2Vec2 (cosf F (k_increment F)) (sinf F (k_increment F))) (Suc k),
                                 fillColor_of F (lit F (1/2)) color)])
                       [0 ..< 16]) \<and>
           emitted ls = emitted (m_lines st) @
             (if m_bIsDebugMode st
              then concat (map (\<lambda>k. [(circle_point F center radius (b2Vec2 (lit F 1) (lit F 0)) k, color),
                                     (circle_point F center radius (b2Vec2 (lit F 1) (lit F 0)) (Suc k), color)])
                            [0 ..< 16]) @
                   [(center, color), (vec_add F center (vec_scale F radius axis), color)]
              else []) \<and>
           (\<not> m_bIsDebugMode st \<longrightarrow> ls = m_lines st)"
proof -
  define s where "s = sinf F (k_increment F)"
  define c where "c = cosf F (k_increment F)"
  define q0 where "q0 = b2Vec2 c s"
  define r0 where "r0 = b2Vec2 (lit F 1) (lit F 0)"
  define fill where "fill = fillColor_of F (lit F (1/2)) color"
  have "\<exists>ts. circle_fill_loop F center radius fill s c center 0 q0
                (vec_add F center (vec_scale F radius q0)) (m_triangles st) = Inr ts \<and>
           batch_ok triangles_maxVertices ts \<and>
           emitted ts = emitted (m_triangles st) @
             concat (map (\<lambda>k. [(center, fill),
                                (vec_add F center (vec_scale F radius ((rotated F s c ^^ k) q0)), fill),
                                (vec_add F center (vec_scale F radius ((rotated F s c ^^ Suc k) q0)), fill)])
                       [0 ..< nat (16 - 0)])"
    by (rule circle_fill_loop_emits [OF okt]) simp_all
  then obtain ts where t: "circle_fill_loop F center radius fill s c center 0 q0
                (vec_add F center (vec_scale F radius q0)) (m_triangles st) = Inr ts"
    and okt': "batch_ok triangles_maxVertices ts"
    and et: "emitted ts = emitted (m_triangles st) @
             concat (map (\<lambda>k. [(center, fill), (circle_point F center radius q0 k, fill),
                                (circle_point F center radius q0 (Suc k), fill)])
                       [0 ..< 16])"
    unfolding circle_point_def s_def c_def by auto
  show ?thesis
  proof (cases "m_bIsDebugMode st")
    case False
    have "DrawSolidCircle F False center radius axis color st
            = Inr (st\<lparr>m_lines := m_lines st, m_triangles := ts\<rparr>)"
      using False t by (simp add: DrawSolidCircle_def Let_def s_def c_def q0_def fill_def)
    with False okt' okl et show ?thesis
      unfolding fill_def q0_def s_def c_def
      by (intro exI [of _ ts] exI [of _ "m_lines st"]) simp
  next
    case True
    have "\<exists>ls. circle_outline_loop F center radius color s c 0 r0
                (vec_add F center (vec_scale F radius r0)) (m_lines st) = Inr ls \<and>
           batch_ok lines_maxVertices ls \<and>
           emitted ls = emitted (m_lines st) @
             concat (map (\<lambda>k. [(vec_add F center (vec_scale F radius ((rotated F s c ^^ k) r0)), color),
                                (vec_add F center (vec_scale F radius ((rotated F s c ^^ Suc k) r0)), color)])
                       [0 ..< nat (16 - 0)])"
      by (rule circle_outline_loop_emits [OF okl]) simp_all
    then obtain ls where l: "circle_outline_loop F center radius color s c 0 r0
                (vec_add F center (vec_scale F radius r0)) (m_lines st) = Inr ls"
      and okl': "batch_ok lines_maxVertices ls"
      and el: "emitted ls = emitted (m_lines st) @
             concat (map (\<lambda>k. [(circle_point F center radius r0 k, color),
                                (circle_point F center radius r0 (Suc k), color)])
                       [0 ..< 16])"
      unfolding circle_point_def s_def c_def by auto
    obtain ls1 where a1: "GLRenderLines_Vertex center color ls = Inr ls1"
      and ok1: "batch_ok lines_maxVertices ls1"
      and e1: "emitted ls1 = emitted ls @ [(center, color)]"
      using GLRenderLines_Vertex_step [OF okl'] by blast
    obtain ls2 where a2: "GLRenderLines_Vertex (vec_add F center (vec_scale F radius axis)) color ls1 = Inr ls2"
      and ok2: "batch_ok lines_maxVertices ls2"
      and e2: "emitted ls2 = emitted ls1 @ [(vec_add F center (vec_scale F radius axis), color)]"
      using GLRenderLines_Vertex_step [OF ok1] by blast
    have "DrawSolidCircle F False center radius axis color st
            = Inr (st\<lparr>m_lines := ls2, m_triangles := ts\<rparr>)"
      using True t l a1 a2
      by (simp add: DrawSolidCircle_def Let_def s_def c_def q0_def r0_def fill_def)
    with True okt' ok2 et el e1 e2 show ?thesis
      unfolding fill_def q0_def r0_def s_def c_def
      by (intro exI [of _ ts] exI [of _ ls2]) simp
  qed
qed

section \<open>The claims about the renderer\<close>

text \<open>
  C9. Every primitive batch keeps its count within its capacity (512 points, 1024 line
  vertices, 1536 triangle vertices, for either variant of the triangle batch): from a
  well-formed batch, \<open>Vertex\<close> returns a well-formed batch that has received the new
  entry; called on a batch that holds exactly the capacity it issues exactly one draw
  call (the flush) before the append and the batch holds exactly one entry afterwards,
  and otherwise it issues none; \<open>Flush\<close> leaves the count at zero, issuing one draw
  call on a non-empty batch and changing nothing on an empty one. The batches that
  \<open>Create\<close> sets up are well formed, so every batch the renderer reaches is.
\<close>

theorem batches_auto_flush:
  "auto_flush points_maxVertices GLRenderPoints_ok
     (GLRenderPoints_Vertex v c sz) GLRenderPoints_Flush v c bp \<and>
   auto_flush lines_maxVertices (batch_ok lines_maxVertices)
     (GLRenderLines_Vertex v c) GLRenderLines_Flush v c bl \<and>
   auto_flush triangles_maxVertices (batch_ok triangles_maxVertices)
     (GLRenderTriangles_Vertex v c) GLRenderTriangles_Flush v c bt \<and>
   auto_flush triangles_maxVertices GLRenderTexturedTriangles_ok
     (GLRenderTexturedTriangles_Vertex v c t m) GLRenderTexturedTriangles_Flush v c bx \<and>
   points_maxVertices = 512 \<and> lines_maxVertices = 1024 \<and> triangles_maxVertices = 1536 \<and>
   GLRenderPoints_ok (m_points (Create z)) \<and> batch_ok lines_maxVertices (m_lines (Create z)) \<and>
   batch_ok triangles_maxVertices (m_triangles (Create z))"
proof -
  have p: "auto_flush points_maxVertices GLRenderPoints_ok
             (GLRenderPoints_Vertex v c sz) GLRenderPoints_Flush v c bp"
    unfolding auto_flush_def
    using GLRenderPoints_Vertex_step [of bp v c sz]
      flush_facts [of GLRenderPoints_Flush bp points_maxVertices]
    by (auto simp: GLRenderPoints_ok_def GLRenderPoints_Flush_def batch_ok_def)
  have l: "auto_flush lines_maxVertices (batch_ok lines_maxVertices)
             (GLRenderLines_Vertex v c) GLRenderLines_Flush v c bl"
    unfolding auto_flush_def
    using GLRenderLines_Vertex_step [of bl v c]
      flush_facts [of GLRenderLines_Flush bl lines_maxVertices]
    by (auto simp: GLRenderLines_Flush_def batch_ok_def)
  have t: "auto_flush triangles_maxVertices (batch_ok triangles_maxVertices)
             (GLRenderTriangles_Vertex v c) GLRenderTriangles_Flush v c bt"
    unfolding auto_flush_def
    using GLRenderTriangles_Vertex_step [of bt v c]
      flush_facts [of GLRenderTriangles_Flush bt triangles_maxVertices]
    by (auto simp: GLRenderTriangles_Flush_def batch_ok_def)
  have x: "auto_flush triangles_maxVertices GLRenderTexturedTriangles_ok
             (GLRenderTexturedTriangles_Vertex v c t m) GLRenderTexturedTriangles_Flush v c bx"
    unfolding auto_flush_def
    using GLRenderTexturedTriangles_Vertex_step [of bx v c t m]
      flush_facts [of GLRenderTexturedTriangles_Flush bx triangles_maxVertices]
    by (auto simp: GLRenderTexturedTriangles_ok_def GLRenderTexturedTriangles_Flush_def batch_ok_def)
  have caps: "points_maxVertices = 512" "lines_maxVertices = 1024" "triangles_maxVertices = 1536"
    by (simp_all add: points_maxVertices_def lines_maxVertices_def triangles_maxVertices_def)
  have created: "GLRenderPoints_ok (m_points (Create z))"
    "batch_ok lines_maxVertices (m_lines (Create z))"
    "batch_ok triangles_maxVertices (m_triangles (Create z))"
    by (simp_all add: Create_def GLRenderPoints_ok_def batch_ok_def caps)
  from p l t x caps created show ?thesis
    by (intro conjI)
qed

theorem batches_auto_flush_witness:
  "GLRenderPoints_ok ((m_points (Create (0::real)))\<lparr>m_count := points_maxVertices\<rparr>) \<and>
   (\<exists>b'. GLRenderPoints_Vertex (b2Vec2 1 2) (b2Color 1 1 1 1) 5
            ((m_points (Create (0::real)))\<lparr>m_count := points_maxVertices\<rparr>) = Inr b' \<and>
         GLRenderPoints_ok b' \<and> m_count b' = 1 \<and> length (gl_draws b') = 1) \<and>
   batch_ok lines_maxVertices ((m_lines (Create (0::real)))\<lparr>m_count := lines_maxVertices\<rparr>) \<and>
   (\<exists>b'. GLRenderLines_Vertex (b2Vec2 1 2) (b2Color 1 1 1 1)
            ((m_lines (Create (0::real)))\<lparr>m_count := lines_maxVertices\<rparr>) = Inr b' \<and>
         batch_ok lines_maxVertices b' \<and> m_count b' = 1 \<and> length (gl_draws b') = 1) \<and>
   batch_ok triangles_maxVertices ((m_triangles (Create (0::real)))\<lparr>m_count := 7\<rparr>) \<and>
   (\<exists>b'. GLRenderTriangles_Vertex (b2Vec2 1 2) (b2Color 1 1 1 1)
            ((m_triangles (Create (0::real)))\<lparr>m_count := 7\<rparr>) = Inr b' \<and>
         batch_ok triangles_maxVertices b' \<and> m_count b' = 8 \<and> gl_draws b' = []) \<and>
   GLRenderTexturedTriangles_ok
     \<lparr>m_vertices = replicate 1536 (b2Vec2 (0::real) 0), m_colors = replicate 1536 (b2Color 0 0 0 0),
      m_count = 1536, gl_draws = [], m_texCoordinates = replicate 1536 (b2Vec2 0 0),
      m_materials = replicate 1536 0, m_textureIds = [- 1, - 1]\<rparr> \<and>
   (\<exists>b'. GLRenderTexturedTriangles_Vertex (b2Vec2 1 2) (b2Color 1 1 1 1) (b2Vec2 0 0) 1
            \<lparr>m_vertices = replicate 1536 (b2Vec2 (0::real) 0), m_colors = replicate 1536 (b2Color 0 0 0 0),
             m_count = 1536, gl_draws = [], m_texCoordinates = replicate 1536 (b2Vec2 0 0),
             m_materials = replicate 1536 0, m_textureIds = [- 1, - 1]\<rparr> = Inr b' \<and>
         GLRenderTexturedTriangles_ok b' \<and> m_count b' = 1 \<and> length (gl_draws b') = 1) \<and>
   m_count (GLRenderLines_Flush ((m_lines (Create (0::real)))\<lparr>m_count := lines_maxVertices\<rparr>)) = 0"
proof -
  define fp where "fp = (m_points (Create (0::real)))\<lparr>m_count := points_maxVertices\<rparr>"
  define fl where "fl = (m_lines (Create (0::real)))\<lparr>m_count := lines_maxVertices\<rparr>"
  define ft where "ft = (m_triangles (Create (0::real)))\<lparr>m_count := 7\<rparr>"
  define fx where "fx = \<lparr>m_vertices = replicate 1536 (b2Vec2 (0::real) 0),
      m_colors = replicate 1536 (b2Color 0 0 0 0),
      m_count = 1536, gl_draws = [], m_texCoordinates = replicate 1536 (b2Vec2 (0::real) 0),
      m_materials = replicate 1536 0, m_textureIds = [- 1, - 1]\<rparr>"
  have okp: "GLRenderPoints_ok fp"
    by (simp add: fp_def Create_def GLRenderPoints_ok_def batch_ok_def points_maxVertices_def)
  have okl: "batch_ok lines_maxVertices fl"
    by (simp add: fl_def Create_def batch_ok_def lines_maxVertices_def)
  have okt: "batch_ok triangles_maxVertices ft"
    by (simp add: ft_def Create_def batch_ok_def triangles_maxVertices_def)
  have okx: "GLRenderTexturedTriangles_ok fx"
    by (simp add: fx_def GLRenderTexturedTriangles_ok_def batch_ok_def triangles_maxVertices_def)
  have cp: "m_count fp = points_maxVertices" and dp: "gl_draws fp = []"
    by (simp_all add: fp_def Create_def)
  have cl: "m_count fl = lines_maxVertices" and dl: "gl_draws fl = []"
    by (simp_all add: fl_def Create_def)
  have ct: "m_count ft \<noteq> triangles_maxVertices" "m_count ft = 7" and dt: "gl_draws ft = []"
    by (simp_all add: ft_def Create_def triangles_maxVertices_def)
  have cx: "m_count fx = triangles_maxVertices" and dx: "gl_draws fx = []"
    by (simp_all add: fx_def triangles_maxVertices_def)
  note all = batches_auto_flush [of "b2Vec2 1 2" "b2Color 1 1 1 1" 5 fp fl ft "b2Vec2 0 0" 1 fx]
  from all have ap: "auto_flush points_maxVertices GLRenderPoints_ok
      (GLRenderPoints_Vertex (b2Vec2 1 2) (b2Color 1 1 1 1) 5) GLRenderPoints_Flush
      (b2Vec2 1 2) (b2Color 1 1 1 1) fp"
    by (rule conjunct1)
  from all have al: "auto_flush lines_maxVertices (batch_ok lines_maxVertices)
      (GLRenderLines_Vertex (b2Vec2 1 2) (b2Color 1 1 1 1)) GLRenderLines_Flush
      (b2Vec2 1 2) (b2Color 1 1 1 1) fl"
    by (rule conjunct1 [OF conjunct2])
  from all have at: "auto_flush triangles_maxVertices (batch_ok triangles_maxVertices)
      (GLRenderTriangles_Vertex (b2Vec2 1 2) (b2Color 1 1 1 1)) GLRenderTriangles_Flush
      (b2Vec2 1 2) (b2Color 1 1 1 1) ft"
    by (rule conjunct1 [OF conjunct2 [OF conjunct2]])
  from all have ax: "auto_flush triangles_maxVertices GLRenderTexturedTriangles_ok
      (GLRenderTexturedTriangles_Vertex (b2Vec2 1 2) (b2Color 1 1 1 1) (b2Vec2 0 0) 1)
      GLRenderTexturedTriangles_Flush (b2Vec2 1 2) (b2Color 1 1 1 1) fx"
    by (rule conjunct1 [OF conjunct2 [OF conjunct2 [OF conjunct2]]])
  from ap okp obtain bp' where
    "GLRenderPoints_Vertex (b2Vec2 1 2) (b2Color 1 1 1 1) 5 fp = Inr bp'" "GLRenderPoints_ok bp'"
    "if m_count fp = points_maxVertices
     then gl_draws bp' = gl_draws fp @ [buffered fp] \<and>
          length (buffered fp) = nat points_maxVertices \<and> m_count bp' = 1
     else gl_draws bp' = gl_draws fp \<and> m_count bp' = m_count fp + 1"
    unfolding auto_flush_def by blast
  then have p: "\<exists>b'. GLRenderPoints_Vertex (b2Vec2 1 2) (b2Color 1 1 1 1) 5 fp = Inr b' \<and>
         GLRenderPoints_ok b' \<and> m_count b' = 1 \<and> length (gl_draws b') = 1"
    by (simp add: cp dp)
  from al okl obtain bl' where
    "GLRenderLines_Vertex (b2Vec2 1 2) (b2Color 1 1 1 1) fl = Inr bl'" "batch_ok lines_maxVertices bl'"
    "if m_count fl = lines_maxVertices
     then gl_draws bl' = gl_draws fl @ [buffered fl] \<and>
          length (buffered fl) = nat lines_maxVertices \<and> m_count bl' = 1
     else gl_draws bl' = gl_draws fl \<and> m_count bl' = m_count fl + 1"
    unfolding auto_flush_def by blast
  then have l: "\<exists>b'. GLRenderLines_Vertex (b2Vec2 1 2) (b2Color 1 1 1 1) fl = Inr b' \<and>
         batch_ok lines_maxVertices b' \<and> m_count b' = 1 \<and> length (gl_draws b') = 1"
    by (simp add: cl dl)
  from at okt obtain bt' where
    "GLRenderTriangles_Vertex (b2Vec2 1 2) (b2Color 1 1 1 1) ft = Inr bt'"
    "batch_ok triangles_maxVertices bt'"
    "if m_count ft = triangles_maxVertices
     then gl_draws bt' = gl_draws ft @ [buffered ft] \<and>
          length (buffered ft) = nat triangles_maxVertices \<and> m_count bt' = 1
     else gl_draws bt' = gl_draws ft \<and> m_count bt' = m_count ft + 1"
    unfolding auto_flush_def by blast
  then have t: "\<exists>b'. GLRenderTriangles_Vertex (b2Vec2 1 2) (b2Color 1 1 1 1) ft = Inr b' \<and>
         batch_ok triangles_maxVertices b' \<and> m_count b' = 8 \<and> gl_draws b' = []"
    by (simp add: ct dt triangles_maxVertices_def)
  from ax okx obtain bx' where
    "GLRenderTexturedTriangles_Vertex (b2Vec2 1 2) (b2Color 1 1 1 1) (b2Vec2 0 0) 1 fx = Inr bx'"
    "GLRenderTexturedTriangles_ok bx'"
    "if m_count fx = triangles_maxVertices
     then gl_draws bx' = gl_draws fx @ [buffered fx] \<and>
          length (buffered fx) = nat triangles_maxVertices \<and> m_count bx' = 1
     else gl_draws bx' = gl_draws fx \<and> m_count bx' = m_count fx + 1"
    unfolding auto_flush_def by blast
  then have x: "\<exists>b'. GLRenderTexturedTriangles_Vertex (b2Vec2 1 2) (b2Color 1 1 1 1) (b2Vec2 0 0) 1 fx = Inr b' \<and>
         GLRenderTexturedTriangles_ok b' \<and> m_count b' = 1 \<and> length (gl_draws b') = 1"
    by (simp add: cx dx)
  from al have f: "m_count (GLRenderLines_Flush fl) = 0"
    unfolding auto_flush_def by blast
  have "GLRenderPoints_ok fp \<and>
     (\<exists>b'. GLRenderPoints_Vertex (b2Vec2 1 2) (b2Color 1 1 1 1) 5 fp = Inr b' \<and>
         GLRenderPoints_ok b' \<and> m_count b' = 1 \<and> length (gl_draws b') = 1) \<and>
     batch_ok lines_maxVertices fl \<and>
     (\<exists>b'. GLRenderLines_Vertex (b2Vec2 1 2) (b2Color 1 1 1 1) fl = Inr b' \<and>
         batch_ok lines_maxVertices b' \<and> m_count b' = 1 \<and> length (gl_draws b') = 1) \<and>
     batch_ok triangles_maxVertices ft \<and>
     (\<exists>b'. GLRenderTriangles_Vertex (b2Vec2 1 2) (b2Color 1 1 1 1) ft = Inr b' \<and>
         batch_ok triangles_maxVertices b' \<and> m_count b' = 8 \<and> gl_draws b' = []) \<and>
     GLRenderTexturedTriangles_ok fx \<and>
     (\<exists>b'. GLRenderTexturedTriangles_Vertex (b2Vec2 1 2) (b2Color 1 1 1 1) (b2Vec2 0 0) 1 fx = Inr b' \<and>
         GLRenderTexturedTriangles_ok b' \<and> m_count b' = 1 \<and> length (gl_draws b') = 1) \<and>
     m_count (GLRenderLines_Flush fl) = 0"
    using okp p okl l okt t okx x f by (intro conjI)
  then show ?thesis
    unfolding fp_def fl_def ft_def fx_def .
qed

text \<open>
  C6. For every sequence of \<open>N \<ge> 3\<close> vertices \<open>DrawPolygon\<close> gives the line batch
  exactly \<open>2N\<close> vertices, in the given colour, forming \<open>N\<close> segments: the first runs
  from \<open>vertex[N-1]\<close> to \<open>vertex[0]\<close> and closes the loop, the \<open>k\<close>-th of the others
  runs from \<open>vertex[k-1]\<close> to \<open>vertex[k]\<close>. Nothing else of the renderer changes.
\<close>

theorem DrawPolygon_closed_loop:
  assumes "batch_ok lines_maxVertices (m_lines st)"
    and "3 \<le> vertexCount" and "vertexCount = int (length vertices)"
  shows "\<exists>ls. DrawPolygon vertices vertexCount color st = Inr (st\<lparr>m_lines := ls\<rparr>) \<and>
           batch_ok lines_maxVertices ls \<and>
           emitted ls = emitted (m_lines st) @
             concat (map (\<lambda>k. [(vertices ! ((k + length vertices - 1) mod length vertices), color),
                                (vertices ! k, color)])
                       [0 ..< length vertices]) \<and>
           length (emitted ls) = length (emitted (m_lines st)) + 2 * length vertices"
proof -
  obtain ls where d: "DrawPolygon vertices vertexCount color st = Inr (st\<lparr>m_lines := ls\<rparr>)"
    and ok: "batch_ok lines_maxVertices ls"
    and e: "emitted ls = emitted (m_lines st) @
             concat (map (\<lambda>k. [(vertices ! ((k + length vertices - 1) mod length vertices), color),
                                (vertices ! k, color)])
                       [0 ..< length vertices])"
    using DrawPolygon_emits [OF assms(1), of vertexCount vertices color] assms(2,3) by auto
  have "length (emitted ls) = length (emitted (m_lines st)) + 2 * length vertices"
    unfolding e by (simp add: length_concat_const)
  with d ok e show ?thesis by blast
qed

theorem DrawPolygon_closed_loop_witness:
  "batch_ok lines_maxVertices (m_lines (Create (0::real))) \<and> (3::int) \<le> 3 \<and>
   (3::int) = int (length [b2Vec2 (0::real) 0, b2Vec2 1 0, b2Vec2 0 1]) \<and>
   (\<exists>ls. DrawPolygon [b2Vec2 0 0, b2Vec2 1 0, b2Vec2 0 1] 3 (b2Color 1 0 0 1) (Create (0::real))
            = Inr ((Create 0)\<lparr>m_lines := ls\<rparr>) \<and>
      emitted ls =
        [(b2Vec2 0 1, b2Color 1 0 0 1), (b2Vec2 0 0, b2Color 1 0 0 1),
         (b2Vec2 0 0, b2Color 1 0 0 1), (b2Vec2 1 0, b2Color 1 0 0 1),
         (b2Vec2 1 0, b2Color 1 0 0 1), (b2Vec2 0 1, b2Color 1 0 0 1)])"
proof -
  have ok: "batch_ok lines_maxVertices (m_lines (Create (0::real)))"
    by (simp add: Create_def batch_ok_def lines_maxVertices_def)
  have e0: "emitted (m_lines (Create (0::real))) = []"
    by (simp add: Create_def emitted_def buffered_def)
  have up: "[0 ..< Suc (Suc (Suc 0))] = [0, Suc 0, Suc (Suc 0)]"
    by simp
  have len: "(3::int) = int (length [b2Vec2 (0::real) 0, b2Vec2 1 0, b2Vec2 0 1])"
    by simp
  from DrawPolygon_closed_loop [OF ok _ len, of "b2Color 1 0 0 1"]
  obtain ls where d: "DrawPolygon [b2Vec2 0 0, b2Vec2 1 0, b2Vec2 0 1] 3 (b2Color 1 0 0 1) (Create (0::real))
            = Inr ((Create 0)\<lparr>m_lines := ls\<rparr>)"
    and e: "emitted ls = emitted (m_lines (Create (0::real))) @
             concat (map (\<lambda>k. [([b2Vec2 0 0, b2Vec2 1 0, b2Vec2 0 1] !
                                   ((k + length [b2Vec2 (0::real) 0, b2Vec2 1 0, b2Vec2 0 1] - 1) mod
                                    length [b2Vec2 (0::real) 0, b2Vec2 1 0, b2Vec2 0 1]), b2Color 1 0 0 1),
                                ([b2Vec2 0 0, b2Vec2 1 0, b2Vec2 0 1] ! k, b2Color 1 0 0 1)])
                       [0 ..< length [b2Vec2 (0::real) 0, b2Vec2 1 0, b2Vec2 0 1]])"
    by auto
  have "emitted ls =
        [(b2Vec2 0 1, b2Color 1 0 0 1), (b2Vec2 0 0, b2Color 1 0 0 1),
         (b2Vec2 0 0, b2Color 1 0 0 1), (b2Vec2 1 0, b2Color 1 0 0 1),
         (b2Vec2 1 0, b2Color 1 0 0 1), (b2Vec2 0 1, b2Color 1 0 0 1)]"
    unfolding e e0 by (simp add: up del: upt_Suc)
  with ok d show ?thesis by auto
qed

text \<open>
  C10. With the line batch well formed and an array of at least \<open>vertexCount\<close>
  vertices, \<open>DrawPolygon\<close> ends in an out-of-bounds access exactly when
  \<open>vertexCount < 1\<close>; for \<open>vertexCount = 0\<close> it is the initial read of
  \<open>vertices[vertexCount - 1]\<close> that is out of bounds; and for every \<open>vertexCount \<ge> 1\<close>,
  1 and 2 included, the call returns and has given the line batch exactly
  \<open>vertexCount\<close> segments (\<open>2 * vertexCount\<close> vertices).
\<close>

theorem DrawPolygon_in_bounds_iff:
  assumes "batch_ok lines_maxVertices (m_lines st)" and "vertexCount \<le> int (length vertices)"
  shows "(DrawPolygon vertices vertexCount color st = Inl OutOfBounds \<longleftrightarrow> vertexCount < 1) \<and>
         (vertexCount = 0 \<longrightarrow> read_at vertices (vertexCount - 1) = Inl OutOfBounds) \<and>
         (1 \<le> vertexCount \<longrightarrow>
            (\<exists>ls. DrawPolygon vertices vertexCount color st = Inr (st\<lparr>m_lines := ls\<rparr>) \<and>
                  batch_ok lines_maxVertices ls \<and>
                  length (emitted ls) = length (emitted (m_lines st)) + 2 * nat vertexCount))"
proof (cases "1 \<le> vertexCount")
  case True
  obtain ls where d: "DrawPolygon vertices vertexCount color st = Inr (st\<lparr>m_lines := ls\<rparr>)"
    and ok: "batch_ok lines_maxVertices ls"
    and e: "emitted ls = emitted (m_lines st) @
             concat (map (\<lambda>k. [(vertices ! ((k + nat vertexCount - 1) mod nat vertexCount), color),
                                (vertices ! k, color)])
                       [0 ..< nat vertexCount])"
    using DrawPolygon_emits [OF assms(1) True assms(2)] by blast
  have "length (emitted ls) = length (emitted (m_lines st)) + 2 * nat vertexCount"
    unfolding e by (simp add: length_concat_const)
  with True d ok show ?thesis by auto
next
  case False
  then have "read_at vertices (vertexCount - 1) = Inl OutOfBounds"
    by (simp add: read_at_def)
  with False show ?thesis by (auto simp: DrawPolygon_def)
qed

theorem DrawPolygon_in_bounds_iff_witness:
  "batch_ok lines_maxVertices (m_lines (Create (0::real))) \<and>
   (0::int) \<le> int (length ([] :: real b2Vec2 list)) \<and>
   DrawPolygon [] 0 (b2Color 1 0 0 1) (Create (0::real)) = Inl OutOfBounds \<and>
   read_at ([] :: real b2Vec2 list) (0 - 1) = Inl OutOfBounds \<and>
   (1::int) \<le> int (length [b2Vec2 (3::real) 4]) \<and>
   (\<exists>ls. DrawPolygon [b2Vec2 3 4] 1 (b2Color 1 0 0 1) (Create (0::real))
            = Inr ((Create 0)\<lparr>m_lines := ls\<rparr>) \<and>
         batch_ok lines_maxVertices ls \<and> length (emitted ls) = 2)"
proof -
  have ok: "batch_ok lines_maxVertices (m_lines (Create (0::real)))"
    by (simp add: Create_def batch_ok_def lines_maxVertices_def)
  have e0: "emitted (m_lines (Create (0::real))) = []"
    by (simp add: Create_def emitted_def buffered_def)
  show ?thesis
    using ok
      DrawPolygon_in_bounds_iff [OF ok, of 0 "[]" "b2Color 1 0 0 1"]
      DrawPolygon_in_bounds_iff [OF ok, of 1 "[b2Vec2 3 4]" "b2Color 1 0 0 1"]
    by (auto simp: e0)
qed

text \<open>
  C7 (amended). In a build without \<open>RENDER_TEXTURES\<close>, for every polygon of
  \<open>N \<ge> 3\<close> vertices \<open>DrawSolidPolygon\<close> gives the triangle batch exactly
  \<open>3 * (N - 2)\<close> vertices forming \<open>N - 2\<close> triangles, fanned from \<open>vertex[0]\<close>: for
  \<open>i\<close> from 1 to \<open>N - 2\<close> the triangle \<open>(vertex[0], vertex[i], vertex[i+1])\<close>, all in
  the fill colour. In a build with \<open>RENDER_TEXTURES\<close> the body of the function is
  empty and it leaves the renderer as it was.
\<close>

theorem DrawSolidPolygon_fan:
  assumes "batch_ok triangles_maxVertices (m_triangles st)"
    and "batch_ok lines_maxVertices (m_lines st)"
    and "3 \<le> vertexCount" and "vertexCount = int (length vertices)"
  shows "(\<exists>ts ls. DrawSolidPolygon F False vertices vertexCount color st
              = Inr (st\<lparr>m_lines := ls, m_triangles := ts\<rparr>) \<and>
            emitted ts = emitted (m_triangles st) @
              concat (map (\<lambda>i. [(vertices ! 0,
                                   fillColor_of F (if m_bIsDebugMode st then lit F (1/2) else lit F 1) color),
                                 (vertices ! i,
                                   fillColor_of F (if m_bIsDebugMode st then lit F (1/2) else lit F 1) color),
                                 (vertices ! (i + 1),
                                   fillColor_of F (if m_bIsDebugMode st then lit F (1/2) else lit F 1) color)])
                        [1 ..< length vertices - 1]) \<and>
            length (emitted ts) = length (emitted (m_triangles st)) + 3 * (length vertices - 2)) \<and>
         DrawSolidPolygon F True vertices vertexCount color st = Inr st"
proof -
  have n: "1 \<le> vertexCount" "vertexCount \<le> int (length vertices)"
    using assms(3,4) by simp_all
  obtain ts ls where d: "DrawSolidPolygon F False vertices vertexCount color st
              = Inr (st\<lparr>m_lines := ls, m_triangles := ts\<rparr>)"
    and e: "emitted ts = emitted (m_triangles st) @
              concat (map (\<lambda>i. [(vertices ! 0,
                                   fillColor_of F (if m_bIsDebugMode st then lit F (1/2) else lit F 1) color),
                                 (vertices ! i,
                                   fillColor_of F (if m_bIsDebugMode st then lit F (1/2) else lit F 1) color),
                                 (vertices ! (i + 1),
                                   fillColor_of F (if m_bIsDebugMode st then lit F (1/2) else lit F 1) color)])
                        [1 ..< length vertices - 1])"
    using DrawSolidPolygon_effect [OF assms(1,2) n, of F color] assms(4) by auto
  have len: "length (emitted ts) = length (emitted (m_triangles st)) + 3 * (length vertices - 2)"
    unfolding e by (simp add: length_concat_const)
  have off: "DrawSolidPolygon F True vertices vertexCount color st = Inr st"
    by (simp add: DrawSolidPolygon_def)
  from d e len off show ?thesis by blast
qed

theorem DrawSolidPolygon_fan_witness:
  "batch_ok triangles_maxVertices (m_triangles (Create (0::real))) \<and>
   batch_ok lines_maxVertices (m_lines (Create (0::real))) \<and>
   (3::int) \<le> 4 \<and>
   (4::int) = int (length [b2Vec2 (0::real) 0, b2Vec2 1 0, b2Vec2 1 1, b2Vec2 0 1]) \<and>
   (\<exists>ts ls. DrawSolidPolygon real_arith False [b2Vec2 0 0, b2Vec2 1 0, b2Vec2 1 1, b2Vec2 0 1] 4
            (b2Color 1 0 0 1) (Create (0::real))
          = Inr ((Create 0)\<lparr>m_lines := ls, m_triangles := ts\<rparr>) \<and>
      emitted ts =
        [(b2Vec2 0 0, b2Color 1 0 0 1), (b2Vec2 1 0, b2Color 1 0 0 1), (b2Vec2 1 1, b2Color 1 0 0 1),
         (b2Vec2 0 0, b2Color 1 0 0 1), (b2Vec2 1 1, b2Color 1 0 0 1), (b2Vec2 0 1, b2Color 1 0 0 1)]) \<and>
   DrawSolidPolygon real_arith True [b2Vec2 0 0, b2Vec2 1 0, b2Vec2 1 1, b2Vec2 0 1] 4
     (b2Color 1 0 0 1) (Create (0::real)) = Inr (Create 0)"
proof -
  have okt: "batch_ok triangles_maxVertices (m_triangles (Create (0::real)))"
    by (simp add: Create_def batch_ok_def triangles_maxVertices_def)
  have okl: "batch_ok lines_maxVertices (m_lines (Create (0::real)))"
    by (simp add: Create_def batch_ok_def lines_maxVertices_def)
  have e0: "emitted (m_triangles (Create (0::real))) = []"
    by (simp add: Create_def emitted_def buffered_def)
  have dbg: "\<not> m_bIsDebugMode (Create (0::real))"
    by (simp add: Create_def)
  have up: "[Suc 0 ..< Suc (Suc (Suc 0))] = [Suc 0, Suc (Suc 0)]"
    by simp
  have len: "(4::int) = int (length [b2Vec2 (0::real) 0, b2Vec2 1 0, b2Vec2 1 1, b2Vec2 0 1])"
    by simp
  have fill: "fillColor_of real_arith (lit real_arith 1) (b2Color 1 0 0 1) = b2Color 1 0 0 1"
    by (simp add: fillColor_of_def real_arith_def)
  from DrawSolidPolygon_fan [OF okt okl _ len, of real_arith "b2Color 1 0 0 1"]
  obtain ts ls where d: "DrawSolidPolygon real_arith False [b2Vec2 0 0, b2Vec2 1 0, b2Vec2 1 1, b2Vec2 0 1] 4
            (b2Color 1 0 0 1) (Create (0::real)) = Inr ((Create 0)\<lparr>m_lines := ls, m_triangles := ts\<rparr>)"
    and e: "emitted ts = emitted (m_triangles (Create (0::real))) @
              concat (map (\<lambda>i. [([b2Vec2 0 0, b2Vec2 1 0, b2Vec2 1 1, b2Vec2 0 1] ! 0,
                                   fillColor_of real_arith (if m_bIsDebugMode (Create (0::real))
                                      then lit real_arith (1/2) else lit real_arith 1) (b2Color 1 0 0 1)),
                                 ([b2Vec2 0 0, b2Vec2 1 0, b2Vec2 1 1, b2Vec2 0 1] ! i,
                                   fillColor_of real_arith (if m_bIsDebugMode (Create (0::real))
                                      then lit real_arith (1/2) else lit real_arith 1) (b2Color 1 0 0 1)),
                                 ([b2Vec2 0 0, b2Vec2 1 0, b2Vec2 1 1, b2Vec2 0 1] ! (i + 1),
                                   fillColor_of real_arith (if m_bIsDebugMode (Create (0::real))
                                      then lit real_arith (1/2) else lit real_arith 1) (b2Color 1 0 0 1))])
                        [1 ..< length [b2Vec2 (0::real) 0, b2Vec2 1 0, b2Vec2 1 1, b2Vec2 0 1] - 1])"
    and off: "DrawSolidPolygon real_arith True [b2Vec2 0 0, b2Vec2 1 0, b2Vec2 1 1, b2Vec2 0 1] 4
            (b2Color 1 0 0 1) (Create (0::real)) = Inr (Create 0)"
    by auto
  have e': "emitted ts =
        [(b2Vec2 0 0, b2Color 1 0 0 1), (b2Vec2 1 0, b2Color 1 0 0 1), (b2Vec2 1 1, b2Color 1 0 0 1),
         (b2Vec2 0 0, b2Color 1 0 0 1), (b2Vec2 1 1, b2Color 1 0 0 1), (b2Vec2 0 1, b2Color 1 0 0 1)]"
    unfolding e e0 using dbg by (simp add: up fill del: upt_Suc)
  from okt okl d e' off show ?thesis by auto
qed

text \<open>
  The claim as stated fails in a build with \<open>RENDER_TEXTURES\<close>: for a triangle
  \<open>DrawSolidPolygon\<close> returns the renderer it was given, whose triangle batch has
  received nothing.
\<close>

theorem DrawSolidPolygon_textures_counterexample:
  "DrawSolidPolygon real_arith True [b2Vec2 0 0, b2Vec2 1 0, b2Vec2 0 1] 3 (b2Color 1 0 0 1)
     (Create (0::real)) = Inr (Create 0) \<and>
   emitted (m_triangles (Create (0::real))) = []"
  by (simp add: DrawSolidPolygon_def Create_def emitted_def buffered_def)

text \<open>
  C8 (amended). For every centre, radius and colour \<open>DrawCircle\<close> gives the line batch
  exactly 32 vertices forming 16 segments, and in a build without \<open>RENDER_TEXTURES\<close>
  \<open>DrawSolidCircle\<close> gives the triangle batch exactly 48 vertices forming 16
  triangles around the centre, whatever the radius. The points are reached by rotating
  a start vector step by step with one sine and one cosine of the increment, taken once
  before the loop: segment \<open>k\<close> joins point \<open>k\<close> to point \<open>k + 1\<close>. In a build with
  \<open>RENDER_TEXTURES\<close> the body of \<open>DrawSolidCircle\<close> is empty and it leaves the
  renderer as it was.
\<close>

theorem circles_sixteen_steps:
  assumes "batch_ok lines_maxVertices (m_lines st)"
    and "batch_ok triangles_maxVertices (m_triangles st)"
  shows "(\<exists>ls. DrawCircle F center radius color st = Inr (st\<lparr>m_lines := ls\<rparr>) \<and>
            emitted ls = emitted (m_lines st) @
              concat (map (\<lambda>k. [(circle_point F center radius (b2Vec2 (lit F 1) (lit F 0)) k, color),
                                 (circle_point F center radius (b2Vec2 (lit F 1) (lit F 0)) (Suc k), color)])
                        [0 ..< 16]) \<and>
            length (emitted ls) = length (emitted (m_lines st)) + 32) \<and>
         (\<exists>ts ls. DrawSolidCircle F False center radius axis color st
              = Inr (st\<lparr>m_lines := ls, m_triangles := ts\<rparr>) \<and>
            map fst (emitted ts) = map fst (emitted (m_triangles st)) @
              concat (map (\<lambda>k. [center,
                                 circle_point F center radius
                                   (b2Vec2 (cosf F (k_increment F)) (sinf F (k_increment F))) k,
                                 circle_point F center radius
                                   (b2Vec2 (cosf F (k_increment F)) (sinf F (k_increment F))) (Suc k)])
                        [0 ..< 16]) \<and>
            length (emitted ts) = length (emitted (m_triangles st)) + 48) \<and>
         DrawSolidCircle F True center radius axis color st = Inr st"
proof -
  obtain ls where c: "DrawCircle F center radius color st = Inr (st\<lparr>m_lines := ls\<rparr>)"
    and el: "emitted ls = emitted (m_lines st) @
              concat (map (\<lambda>k. [(circle_point F center radius (b2Vec2 (lit F 1) (lit F 0)) k, color),
                                 (circle_point F center radius (b2Vec2 (lit F 1) (lit F 0)) (Suc k), color)])
                        [0 ..< 16])"
    using DrawCircle_effect [OF assms(1)] by blast
  have ll: "length (emitted ls) = length (emitted (m_lines st)) + 32"
    unfolding el by (simp add: length_concat_const)
  obtain ts ls' where s: "DrawSolidCircle F False center radius axis color st
              = Inr (st\<lparr>m_lines := ls', m_triangles := ts\<rparr>)"
    and et: "emitted ts = emitted (m_triangles st) @
             concat (map (\<lambda>k. [(center, fillColor_of F (lit F (1/2)) color),
                                (circle_point F center radius
                                   (b2Vec2 (cosf F (k_increment F)) (sinf F (k_increment F))) k,
                                 fillColor_of F (lit F (1/2)) color),
                                (circle_point F center radius
                                   (b2Vec2 (cosf F (k_increment F)) (sinf F (k_increment F))) (Suc k),
                                 fillColor_of F (lit F (1/2)) color)])
                       [0 ..< 16])"
    using DrawSolidCircle_effect [OF assms(2,1)] by blast
  have lt: "length (emitted ts) = length (emitted (m_triangles st)) + 48"
    unfolding et by (simp add: length_concat_const)
  have pt: "map fst (emitted ts) = map fst (emitted (m_triangles st)) @
              concat (map (\<lambda>k. [center,
                                 circle_point F center radius
                                   (b2Vec2 (cosf F (k_increment F)) (sinf F (k_increment F))) k,
                                 circle_point F center radius
                                   (b2Vec2 (cosf F (k_increment F)) (sinf F (k_increment F))) (Suc k)])
                        [0 ..< 16])"
    unfolding et by (simp add: map_concat comp_def)
  have off: "DrawSolidCircle F True center radius axis color st = Inr st"
    by (simp add: DrawSolidCircle_def)
  from c el ll s pt lt off show ?thesis by blast
qed

theorem circles_sixteen_steps_witness:
  "batch_ok lines_maxVertices (m_lines (Create (0::real))) \<and>
   batch_ok triangles_maxVertices (m_triangles (Create (0::real))) \<and>
   (\<exists>ls. DrawCircle real_arith (b2Vec2 0 0) 2 (b2Color 1 0 0 1) (Create (0::real))
            = Inr ((Create 0)\<lparr>m_lines := ls\<rparr>) \<and>
         length (emitted ls) = 32) \<and>
   (\<exists>ts ls. DrawSolidCircle real_arith False (b2Vec2 0 0) 2 (b2Vec2 1 0) (b2Color 1 0 0 1) (Create (0::real))
            = Inr ((Create 0)\<lparr>m_lines := ls, m_triangles := ts\<rparr>) \<and>
         length (emitted ts) = 48) \<and>
   DrawSolidCircle real_arith True (b2Vec2 0 0) 2 (b2Vec2 1 0) (b2Color 1 0 0 1) (Create (0::real))
     = Inr (Create 0)"
proof -
  have okl: "batch_ok lines_maxVertices (m_lines (Create (0::real)))"
    by (simp add: Create_def batch_ok_def lines_maxVertices_def)
  have okt: "batch_ok triangles_maxVertices (m_triangles (Create (0::real)))"
    by (simp add: Create_def batch_ok_def triangles_maxVertices_def)
  have e0: "emitted (m_lines (Create (0::real))) = []" "emitted (m_triangles (Create (0::real))) = []"
    by (simp_all add: Create_def emitted_def buffered_def)
  from circles_sixteen_steps [OF okl okt, of real_arith "b2Vec2 0 0" 2 "b2Color 1 0 0 1" "b2Vec2 1 0"]
  obtain ls ts ls' where
    "DrawCircle real_arith (b2Vec2 0 0) 2 (b2Color 1 0 0 1) (Create (0::real))
       = Inr ((Create 0)\<lparr>m_lines := ls\<rparr>)"
    "length (emitted ls) = length (emitted (m_lines (Create (0::real)))) + 32"
    "DrawSolidCircle real_arith False (b2Vec2 0 0) 2 (b2Vec2 1 0) (b2Color 1 0 0 1) (Create (0::real))
       = Inr ((Create 0)\<lparr>m_lines := ls', m_triangles := ts\<rparr>)"
    "length (emitted ts) = length (emitted (m_triangles (Create (0::real)))) + 48"
    "DrawSolidCircle real_arith True (b2Vec2 0 0) 2 (b2Vec2 1 0) (b2Color 1 0 0 1) (Create (0::real))
       = Inr (Create 0)"
    by blast
  with okl okt show ?thesis
    unfolding e0 by auto
qed

text \<open>
  The claim as stated fails in a build with \<open>RENDER_TEXTURES\<close>: \<open>DrawSolidCircle\<close>
  returns the renderer it was given, whose triangle batch has received nothing.
\<close>

theorem DrawSolidCircle_textures_counterexample:
  "DrawSolidCircle real_arith True (b2Vec2 0 0) 2 (b2Vec2 1 0) (b2Color 1 0 0 1) (Create (0::real))
     = Inr (Create 0) \<and>
   emitted (m_triangles (Create (0::real))) = []"
  by (simp add: DrawSolidCircle_def Create_def emitted_def buffered_def)

text \<open>
  C3 (amended). In a build without \<open>RENDER_TEXTURES\<close>: with the debug flag set,
  \<open>DrawSolidCircle\<close> fills its 16 triangles with the halved colour (red, green and
  blue multiplied by 0.5, alpha 0.5) and additionally gives the line batch the
  wireframe outline (16 segments in the given colour) followed by the radius line from
  the centre to \<open>center + radius * axis\<close>; with the flag clear it gives the line batch
  nothing and the triangle batch its 16 triangles. In a build with \<open>RENDER_TEXTURES\<close>
  its body is empty and it leaves the renderer as it was, whatever the flag.
\<close>

theorem DrawSolidCircle_debug_flag:
  assumes "batch_ok triangles_maxVertices (m_triangles st)"
    and "batch_ok lines_maxVertices (m_lines st)"
  shows "(m_bIsDebugMode st \<longrightarrow>
            (\<exists>ts ls. DrawSolidCircle F False center radius axis color st
                 = Inr (st\<lparr>m_lines := ls, m_triangles := ts\<rparr>) \<and>
               emitted ts = emitted (m_triangles st) @
                 concat (map (\<lambda>k. [(center, fillColor_of F (lit F (1/2)) color),
                                    (circle_point F center radius
                                       (b2Vec2 (cosf F (k_increment F)) (sinf F (k_increment F))) k,
                                     fillColor_of F (lit F (1/2)) color),
                                    (circle_point F center radius
                                       (b2Vec2 (cosf F (k_increment F)) (sinf F (k_increment F))) (Suc k),
                                     fillColor_of F (lit F (1/2)) color)])
                           [0 ..< 16]) \<and>
               emitted ls = emitted (m_lines st) @
                 concat (map (\<lambda>k. [(circle_point F center radius (b2Vec2 (lit F 1) (lit F 0)) k, color),
                                    (circle_point F center radius (b2Vec2 (lit F 1) (lit F 0)) (Suc k), color)])
                           [0 ..< 16]) @
                 [(center, color), (vec_add F center (vec_scale F radius axis), color)])) \<and>
         (\<not> m_bIsDebugMode st \<longrightarrow>
            (\<exists>ts. DrawSolidCircle F False center radius axis color st = Inr (st\<lparr>m_triangles := ts\<rparr>) \<and>
               length (emitted ts) = length (emitted (m_triangles st)) + 48)) \<and>
         DrawSolidCircle F True center radius axis color st = Inr st \<and>
         fillColor_of F (lit F (1/2)) color =
           b2Color (fmul F (lit F (1/2)) (r_of color)) (fmul F (lit F (1/2)) (g_of color))
             (fmul F (lit F (1/2)) (b_of color)) (lit F (1/2))"
proof -
  obtain ts ls where s: "DrawSolidCircle F False center radius axis color st
              = Inr (st\<lparr>m_lines := ls, m_triangles := ts\<rparr>)"
    and et: "emitted ts = emitted (m_triangles st) @
             concat (map (\<lambda>k. [(center, fillColor_of F (lit F (1/2)) color),
                                (circle_point F center radius
                                   (b2Vec2 (cosf F (k_increment F)) (sinf F (k_increment F))) k,
                                 fillColor_of F (lit F (1/2)) color),
                                (circle_point F center radius
                                   (b2Vec2 (cosf F (k_increment F)) (sinf F (k_increment F))) (Suc k),
                                 fillColor_of F (lit F (1/2)) color)])
                       [0 ..< 16])"
    and el: "emitted ls = emitted (m_lines st) @
             (if m_bIsDebugMode st
              then concat (map (\<lambda>k. [(circle_point F center radius (b2Vec2 (lit F 1) (lit F 0)) k, color),
                                     (circle_point F center radius (b2Vec2 (lit F 1) (lit F 0)) (Suc k), color)])
                            [0 ..< 16]) @
                   [(center, color), (vec_add F center (vec_scale F radius axis), color)]
              else [])"
    and same: "\<not> m_bIsDebugMode st \<longrightarrow> ls = m_lines st"
    using DrawSolidCircle_effect [OF assms] by blast
  have lt: "length (emitted ts) = length (emitted (m_triangles st)) + 48"
    unfolding et by (simp add: length_concat_const)
  have set_case: "m_bIsDebugMode st \<longrightarrow>
            (\<exists>ts ls. DrawSolidCircle F False center radius axis color st
                 = Inr (st\<lparr>m_lines := ls, m_triangles := ts\<rparr>) \<and>
               emitted ts = emitted (m_triangles st) @
                 concat (map (\<lambda>k. [(center, fillColor_of F (lit F (1/2)) color),
                                    (circle_point F center radius
                                       (b2Vec2 (cosf F (k_increment F)) (sinf F (k_increment F))) k,
                                     fillColor_of F (lit F (1/2)) color),
                                    (circle_point F center radius
                                       (b2Vec2 (cosf F (k_increment F)) (sinf F (k_increment F))) (Suc k),
                                     fillColor_of F (lit F (1/2)) color)])
                           [0 ..< 16]) \<and>
               emitted ls = emitted (m_lines st) @
                 concat (map (\<lambda>k. [(circle_point F center radius (b2Vec2 (lit F 1) (lit F 0)) k, color),
                                    (circle_point F center radius (b2Vec2 (lit F 1) (lit F 0)) (Suc k), color)])
                           [0 ..< 16]) @
                 [(center, color), (vec_add F center (vec_scale F radius axis), color)])"
  proof
    assume "m_bIsDebugMode st"
    with el have "emitted ls = emitted (m_lines st) @
                 concat (map (\<lambda>k. [(circle_point F center radius (b2Vec2 (lit F 1) (lit F 0)) k, color),
                                    (circle_point F center radius (b2Vec2 (lit F 1) (lit F 0)) (Suc k), color)])
                           [0 ..< 16]) @
                 [(center, color), (vec_add F center (vec_scale F radius axis), color)]"
      by simp
    with s et show "\<exists>ts ls. DrawSolidCircle F False center radius axis color st
                 = Inr (st\<lparr>m_lines := ls, m_triangles := ts\<rparr>) \<and>
               emitted ts = emitted (m_triangles st) @
                 concat (map (\<lambda>k. [(center, fillColor_of F (lit F (1/2)) color),
                                    (circle_point F center radius
                                       (b2Vec2 (cosf F (k_increment F)) (sinf F (k_increment F))) k,
                                     fillColor_of F (lit F (1/2)) color),
                                    (circle_point F center radius
                                       (b2Vec2 (cosf F (k_increment F)) (sinf F (k_increment F))) (Suc k),
                                     fillColor_of F (lit F (1/2)) color)])
                           [0 ..< 16]) \<and>
               emitted ls = emitted (m_lines st) @
                 concat (map (\<lambda>k. [(circle_point F center radius (b2Vec2 (lit F 1) (lit F 0)) k, color),
                                    (circle_point F center radius (b2Vec2 (lit F 1) (lit F 0)) (Suc k), color)])
                           [0 ..< 16]) @
                 [(center, color), (vec_add F center (vec_scale F radius axis), color)]"
      by blast
  qed
  have clear_case: "\<not> m_bIsDebugMode st \<longrightarrow>
            (\<exists>ts. DrawSolidCircle F False center radius axis color st = Inr (st\<lparr>m_triangles := ts\<rparr>) \<and>
               length (emitted ts) = length (emitted (m_triangles st)) + 48)"
  proof
    assume nd: "\<not> m_bIsDebugMode st"
    with same have "ls = m_lines st" by simp
    with s have "DrawSolidCircle F False center radius axis color st = Inr (st\<lparr>m_triangles := ts\<rparr>)"
      by simp
    with lt show "\<exists>ts. DrawSolidCircle F False center radius axis color st = Inr (st\<lparr>m_triangles := ts\<rparr>) \<and>
               length (emitted ts) = length (emitted (m_triangles st)) + 48"
      by blast
  qed
  have off: "DrawSolidCircle F True center radius axis color st = Inr st"
    by (simp add: DrawSolidCircle_def)
  have fill: "fillColor_of F (lit F (1/2)) color =
           b2Color (fmul F (lit F (1/2)) (r_of color)) (fmul F (lit F (1/2)) (g_of color))
             (fmul F (lit F (1/2)) (b_of color)) (lit F (1/2))"
    by (simp add: fillColor_of_def)
  from set_case clear_case off fill show ?thesis by (intro conjI)
qed

theorem DrawSolidCircle_debug_flag_witness:
  "batch_ok triangles_maxVertices (m_triangles (setIsDebugMode True (Create (0::real)))) \<and>
   batch_ok lines_maxVertices (m_lines (setIsDebugMode True (Create (0::real)))) \<and>
   m_bIsDebugMode (setIsDebugMode True (Create (0::real))) \<and>
   (\<exists>ts ls. DrawSolidCircle real_arith False (b2Vec2 0 0) 2 (b2Vec2 1 0) (b2Color 1 0 0 1)
               (setIsDebugMode True (Create (0::real)))
             = Inr ((setIsDebugMode True (Create 0))\<lparr>m_lines := ls, m_triangles := ts\<rparr>) \<and>
      length (emitted ts) = 48 \<and>
      set (map snd (emitted ts)) = {b2Color (1/2) 0 0 (1/2)} \<and>
      length (emitted ls) = 34 \<and>
      drop 32 (emitted ls) = [(b2Vec2 0 0, b2Color 1 0 0 1), (b2Vec2 2 0, b2Color 1 0 0 1)]) \<and>
   batch_ok triangles_maxVertices (m_triangles (Create (0::real))) \<and>
   batch_ok lines_maxVertices (m_lines (Create (0::real))) \<and>
   \<not> m_bIsDebugMode (Create (0::real)) \<and>
   (\<exists>ts. DrawSolidCircle real_arith False (b2Vec2 0 0) 2 (b2Vec2 1 0) (b2Color 1 0 0 1) (Create (0::real))
          = Inr ((Create 0)\<lparr>m_triangles := ts\<rparr>) \<and>
      length (emitted ts) = 48)"
proof -
  define dbg where "dbg = setIsDebugMode True (Create (0::real))"
  define fill where "fill = b2Color (1/2) (0::real) 0 (1/2)"
  define red where "red = b2Color (1::real) 0 0 1"
  have okt: "batch_ok triangles_maxVertices (m_triangles (Create (0::real)))"
    by (simp add: Create_def batch_ok_def triangles_maxVertices_def)
  have okl: "batch_ok lines_maxVertices (m_lines (Create (0::real)))"
    by (simp add: Create_def batch_ok_def lines_maxVertices_def)
  have okt': "batch_ok triangles_maxVertices (m_triangles dbg)"
    using okt by (simp add: dbg_def setIsDebugMode_def)
  have okl': "batch_ok lines_maxVertices (m_lines dbg)"
    using okl by (simp add: dbg_def setIsDebugMode_def)
  have flag: "m_bIsDebugMode dbg" "\<not> m_bIsDebugMode (Create (0::real))"
    by (simp_all add: dbg_def setIsDebugMode_def Create_def)
  have e0: "emitted (m_lines dbg) = []" "emitted (m_triangles dbg) = []"
    "emitted (m_triangles (Create (0::real))) = []"
    by (simp_all add: dbg_def setIsDebugMode_def Create_def emitted_def buffered_def)
  have fc: "fillColor_of real_arith (lit real_arith (1/2)) red = fill"
    by (simp add: fillColor_of_def real_arith_def fill_def red_def of_rat_divide)
  have p: "vec_add real_arith (b2Vec2 0 0) (vec_scale real_arith 2 (b2Vec2 1 0)) = b2Vec2 2 0"
    by (simp add: real_arith_def)
  note th = DrawSolidCircle_debug_flag [OF okt' okl', of real_arith "b2Vec2 0 0" 2 "b2Vec2 1 0" red]
  from th flag(1) obtain ts ls where
    d: "DrawSolidCircle real_arith False (b2Vec2 0 0) 2 (b2Vec2 1 0) red dbg
          = Inr (dbg\<lparr>m_lines := ls, m_triangles := ts\<rparr>)"
    and et: "emitted ts = emitted (m_triangles dbg) @
                 concat (map (\<lambda>k. [(b2Vec2 0 0, fillColor_of real_arith (lit real_arith (1/2)) red),
                                    (circle_point real_arith (b2Vec2 0 0) 2
                                       (b2Vec2 (cosf real_arith (k_increment real_arith))
                                          (sinf real_arith (k_increment real_arith))) k,
                                     fillColor_of real_arith (lit real_arith (1/2)) red),
                                    (circle_point real_arith (b2Vec2 0 0) 2
                                       (b2Vec2 (cosf real_arith (k_increment real_arith))
                                          (sinf real_arith (k_increment real_arith))) (Suc k),
                                     fillColor_of real_arith (lit real_arith (1/2)) red)])
                           [0 ..< 16])"
    and el: "emitted ls = emitted (m_lines dbg) @
                 concat (map (\<lambda>k. [(circle_point real_arith (b2Vec2 0 0) 2
                                       (b2Vec2 (lit real_arith 1) (lit real_arith 0)) k, red),
                                    (circle_point real_arith (b2Vec2 0 0) 2
                                       (b2Vec2 (lit real_arith 1) (lit real_arith 0)) (Suc k), red)])
                           [0 ..< 16]) @
                 [(b2Vec2 0 0, red), (vec_add real_arith (b2Vec2 0 0) (vec_scale real_arith 2 (b2Vec2 1 0)), red)]"
    by blast
  have lt: "length (emitted ts) = 48"
    unfolding et e0 by (simp add: length_concat_const)
  have ct: "set (map snd (emitted ts)) = {fill}"
    unfolding et e0 fc by auto
  have lo: "length (concat (map (\<lambda>k. [(circle_point real_arith (b2Vec2 0 0) 2
                                       (b2Vec2 (lit real_arith 1) (lit real_arith 0)) k, red),
                                    (circle_point real_arith (b2Vec2 0 0) 2
                                       (b2Vec2 (lit real_arith 1) (lit real_arith 0)) (Suc k), red)])
                           [0 ..< 16])) = 32"
    by (simp add: length_concat_const)
  have ll: "length (emitted ls) = 34"
    unfolding el e0 using lo by simp
  have dl: "drop 32 (emitted ls) = [(b2Vec2 0 0, red), (b2Vec2 2 0, red)]"
    unfolding el e0 p using lo by simp
  note th2 = DrawSolidCircle_debug_flag [OF okt okl, of real_arith "b2Vec2 0 0" 2 "b2Vec2 1 0" red]
  from th2 flag(2) obtain ts2 where
    d2: "DrawSolidCircle real_arith False (b2Vec2 0 0) 2 (b2Vec2 1 0) red (Create (0::real))
          = Inr ((Create 0)\<lparr>m_triangles := ts2\<rparr>)"
    and l2: "length (emitted ts2) = length (emitted (m_triangles (Create (0::real)))) + 48"
    by blast
  have l2': "length (emitted ts2) = 48"
    using l2 unfolding e0 by simp
  have "batch_ok triangles_maxVertices (m_triangles dbg) \<and>
   batch_ok lines_maxVertices (m_lines dbg) \<and>
   m_bIsDebugMode dbg \<and>
   (\<exists>ts ls. DrawSolidCircle real_arith False (b2Vec2 0 0) 2 (b2Vec2 1 0) red dbg
             = Inr (dbg\<lparr>m_lines := ls, m_triangles := ts\<rparr>) \<and>
      length (emitted ts) = 48 \<and>
      set (map snd (emitted ts)) = {fill} \<and>
      length (emitted ls) = 34 \<and>
      drop 32 (emitted ls) = [(b2Vec2 0 0, red), (b2Vec2 2 0, red)]) \<and>
   batch_ok triangles_maxVertices (m_triangles (Create (0::real))) \<and>
   batch_ok lines_maxVertices (m_lines (Create (0::real))) \<and>
   \<not> m_bIsDebugMode (Create (0::real)) \<and>
   (\<exists>ts. DrawSolidCircle real_arith False (b2Vec2 0 0) 2 (b2Vec2 1 0) red (Create (0::real))
          = Inr ((Create 0)\<lparr>m_triangles := ts\<rparr>) \<and>
      length (emitted ts) = 48)"
    using okt' okl' flag d lt ct ll dl okt okl d2 l2' by blast
  then show ?thesis
    unfolding dbg_def fill_def red_def .
qed

text \<open>
  The claim as stated fails in a build with \<open>RENDER_TEXTURES\<close>: with the debug flag
  set, \<open>DrawSolidCircle\<close> returns the renderer it was given, whose line batch has
  received neither an outline nor a radius line.
\<close>

theorem DrawSolidCircle_debug_textures_counterexample:
  "m_bIsDebugMode (setIsDebugMode True (Create (0::real))) \<and>
   DrawSolidCircle real_arith True (b2Vec2 0 0) 2 (b2Vec2 1 0) (b2Color 1 0 0 1)
     (setIsDebugMode True (Create (0::real))) = Inr (setIsDebugMode True (Create 0)) \<and>
   emitted (m_lines (setIsDebugMode True (Create (0::real)))) = []"
  by (simp add: DrawSolidCircle_def setIsDebugMode_def Create_def emitted_def buffered_def)

text \<open>
  Remark. In a build without \<open>RENDER_TEXTURES\<close> the fill of \<open>DrawSolidCircle\<close> is
  halved with the debug flag clear as well: its \<open>fillColor\<close> is built from the
  constant \<open>0.5f\<close>, where \<open>DrawSolidPolygon\<close> uses \<open>transConst\<close>, which is \<open>1.0\<close>
  with the flag clear.
\<close>

lemma DrawSolidCircle_flag_clear_fill:
  "\<not> m_bIsDebugMode (Create (0::real)) \<and>
   (\<exists>ts ls. DrawSolidCircle real_arith False (b2Vec2 0 0) 2 (b2Vec2 1 0) (b2Color 1 0 0 1) (Create (0::real))
          = Inr ((Create 0)\<lparr>m_lines := ls, m_triangles := ts\<rparr>) \<and>
      set (map snd (emitted ts)) = {b2Color (1/2) 0 0 (1/2)})"
proof -
  define fill where "fill = b2Color (1/2) (0::real) 0 (1/2)"
  define red where "red = b2Color (1::real) 0 0 1"
  have okt: "batch_ok triangles_maxVertices (m_triangles (Create (0::real)))"
    by (simp add: Create_def batch_ok_def triangles_maxVertices_def)
  have okl: "batch_ok lines_maxVertices (m_lines (Create (0::real)))"
    by (simp add: Create_def batch_ok_def lines_maxVertices_def)
  have flag: "\<not> m_bIsDebugMode (Create (0::real))"
    by (simp add: Create_def)
  have e0: "emitted (m_triangles (Create (0::real))) = []"
    by (simp add: Create_def emitted_def buffered_def)
  have fc: "fillColor_of real_arith (lit real_arith (1/2)) red = fill"
    by (simp add: fillColor_of_def real_arith_def fill_def red_def of_rat_divide)
  from DrawSolidCircle_effect [OF okt okl, of real_arith "b2Vec2 0 0" 2 "b2Vec2 1 0" red]
  obtain ts ls where
    d: "DrawSolidCircle real_arith False (b2Vec2 0 0) 2 (b2Vec2 1 0) red (Create (0::real))
          = Inr ((Create 0)\<lparr>m_lines := ls, m_triangles := ts\<rparr>)"
    and et: "emitted ts = emitted (m_triangles (Create (0::real))) @
                 concat (map (\<lambda>k. [(b2Vec2 0 0, fillColor_of real_arith (lit real_arith (1/2)) red),
                                    (circle_point real_arith (b2Vec2 0 0) 2
                                       (b2Vec2 (cosf real_arith (k_increment real_arith))
                                          (sinf real_arith (k_increment real_arith))) k,
                                     fillColor_of real_arith (lit real_arith (1/2)) red),
                                    (circle_point real_arith (b2Vec2 0 0) 2
                                       (b2Vec2 (cosf real_arith (k_increment real_arith))
                                          (sinf real_arith (k_increment real_arith))) (Suc k),
                                     fillColor_of real_arith (lit real_arith (1/2)) red)])
                           [0 ..< 16])"
    by blast
  have "set (map snd (emitted ts)) = {fill}"
    unfolding et e0 fc by auto
  with flag d have "\<not> m_bIsDebugMode (Create (0::real)) \<and>
   (\<exists>ts ls. DrawSolidCircle real_arith False (b2Vec2 0 0) 2 (b2Vec2 1 0) red (Create (0::real))
          = Inr ((Create 0)\<lparr>m_lines := ls, m_triangles := ts\<rparr>) \<and>
      set (map snd (emitted ts)) = {fill})"
    by blast
  then show ?thesis
    unfolding fill_def red_def .
qed

end
